theory Spec2Isabelle
  imports Main "HOL-Library.FSet" "HOL-Library.AList"
begin

section \<open>Embedding of \<^verbatim>\<open>venn/_venn.py\<close>\<close>

text \<open>
  The petal computation of \<^verbatim>\<open>src/venn/_venn.py\<close> is embedded function by function.
  A Python \<^verbatim>\<open>set\<close> is a finite set (\<open>'a fset\<close>), a Python \<^verbatim>\<open>int\<close> that is a length or a
  count is a \<open>nat\<close>, a \<^verbatim>\<open>str\<close> is a \<open>string\<close>, a \<^verbatim>\<open>dict\<close> is an association list in
  insertion order, and a raised exception is the \<open>Inl\<close> branch of a sum.
\<close>

subsection \<open>Exceptions\<close>

datatype error =
    TypeError
  | IndexError
  | KeyError
  | ZeroDivisionError
  | OverflowError
  | ValueError string

subsection \<open>\<^verbatim>\<open>generate_logics\<close> (lines 49-52)\<close>

text \<open>
  \<^verbatim>\<open>
  def generate_logics(n_sets):
      for i in range(1, 2**n_sets):
          yield bin(i)[2:].zfill(n_sets)
  \<close>
  \<open>py_bin i\<close> is \<^verbatim>\<open>bin(i)\<close> for \<open>i \<ge> 0\<close>: the prefix \<^verbatim>\<open>0b\<close> and the binary digits, most
  significant first, a single \<^verbatim>\<open>0\<close> for zero. \<open>zfill\<close> is \<^verbatim>\<open>str.zfill\<close>: it pads with
  \<^verbatim>\<open>0\<close> on the left up to the width, after a leading sign if there is one, and never
  truncates. The generator is finite and has no effects, so it is the list of what it
  yields.
\<close>

definition bit_char :: "nat \<Rightarrow> char" where
  "bit_char d = (if d = 0 then CHR ''0'' else CHR ''1'')"

fun bin_digits :: "nat \<Rightarrow> string" where
  "bin_digits i = (if i < 2 then [bit_char i] else bin_digits (i div 2) @ [bit_char (i mod 2)])"

declare bin_digits.simps [simp del]

definition py_bin :: "nat \<Rightarrow> string" where
  "py_bin i = ''0b'' @ bin_digits i"

definition zfill :: "nat \<Rightarrow> string \<Rightarrow> string" where
  "zfill width s =
     (case s of
        [] \<Rightarrow> replicate width CHR ''0''
      | c # rest \<Rightarrow>
          if c = CHR ''+'' \<or> c = CHR ''-''
          then c # replicate (width - length s) CHR ''0'' @ rest
          else replicate (width - length s) CHR ''0'' @ s)"

definition generate_logics :: "nat \<Rightarrow> string list" where
  "generate_logics n_sets = map (\<lambda>i. zfill n_sets (drop 2 (py_bin i))) [1..<2 ^ n_sets]"

text \<open>
  The integer a string over \<^verbatim>\<open>0\<close>, \<^verbatim>\<open>1\<close> denotes when it is read as a binary numeral
  (Python's \<^verbatim>\<open>int(s, 2)\<close>). It is the specification's reading of a pattern, not part of
  the source.
\<close>

definition bin_value :: "string \<Rightarrow> nat" where
  "bin_value s = foldl (\<lambda>acc c. 2 * acc + (if c = CHR ''1'' then 1 else 0)) 0 s"

subsection \<open>Python set operations\<close>

text \<open>
  \<^verbatim>\<open>set.union(s, *others)\<close> and \<^verbatim>\<open>set.intersection(s, *others)\<close> called through the class:
  the first argument is the receiver, so a call with no argument at all raises
  \<^verbatim>\<open>TypeError\<close>. Both build a new set and leave their arguments alone.
\<close>

fun set_union :: "'a fset list \<Rightarrow> error + 'a fset" where
  "set_union [] = Inl TypeError"
| "set_union (s # others) = Inr (fold (\<lambda>t acc. acc |\<union>| t) others s)"

fun set_intersection :: "'a fset list \<Rightarrow> error + 'a fset" where
  "set_intersection [] = Inl TypeError"
| "set_intersection (s # others) = Inr (fold (\<lambda>t acc. acc |\<inter>| t) others s)"

subsection \<open>True division and the default template\<close>

text \<open>
  \<^verbatim>\<open>a / b\<close> on two non-negative Python ints: \<^verbatim>\<open>ZeroDivisionError\<close> for \<open>b = 0\<close>, otherwise
  the IEEE 754 binary64 number nearest to the exact quotient, ties to even (CPython
  rounds the quotient of two ints correctly). A float is represented by the rational it
  denotes. \<open>bit_length\<close> is \<^verbatim>\<open>int.bit_length\<close>; \<open>floor_log2 a b\<close> is the integer part of the
  base-2 logarithm of \<open>a / b\<close>; the significand has 53 bits and the least exponent of a
  unit in the last place is \<open>-1074\<close>.
\<close>

definition pow2 :: "int \<Rightarrow> rat" where
  "pow2 e = (if 0 \<le> e then 2 ^ nat e else 1 / 2 ^ nat (- e))"

fun bit_length :: "nat \<Rightarrow> nat" where
  "bit_length n = (if n = 0 then 0 else Suc (bit_length (n div 2)))"

declare bit_length.simps [simp del]

definition floor_log2 :: "nat \<Rightarrow> nat \<Rightarrow> int" where
  "floor_log2 a b =
     (let d = int (bit_length a) - int (bit_length b)
      in if of_nat b * pow2 d \<le> of_nat a then d else d - 1)"

definition round_half_even :: "rat \<Rightarrow> int" where
  "round_half_even x =
     (let f = \<lfloor>x\<rfloor>; r = x - of_int f
      in if r < 1 / 2 then f else if 1 / 2 < r then f + 1 else if even f then f else f + 1)"

definition true_div :: "nat \<Rightarrow> nat \<Rightarrow> error + rat" where
  "true_div a b =
     (if b = 0 then Inl ZeroDivisionError
      else if a = 0 then Inr 0
      else
        let e = max (floor_log2 a b - 52) (- 1074);
            x = of_int (round_half_even (of_nat a / of_nat b / pow2 e)) * pow2 e
        in if pow2 1024 \<le> x then Inl OverflowError else Inr x)"

text \<open>
  \<^verbatim>\<open>fmt.format(logic=..., size=..., percentage=...)\<close>: a template is represented by the
  function \<^verbatim>\<open>str.format\<close> computes from it, from the three named fields to the formatted
  string or to the exception the template raises (an unknown field name, a bad format
  specification). \<open>default_fmt\<close> is the default template \<^verbatim>\<open>"{size} ({percentage:.1f}%)"\<close>:
  \<open>str_nat\<close> is the decimal \<^verbatim>\<open>str\<close> of a non-negative int, and \<open>format_1f\<close> is the format
  specification \<^verbatim>\<open>.1f\<close> on a float, the decimal with one fractional digit nearest to the
  float's exact value, ties to even.
\<close>

definition digit_char :: "nat \<Rightarrow> char" where
  "digit_char d = ''0123456789'' ! d"

fun str_nat :: "nat \<Rightarrow> string" where
  "str_nat n = (if n < 10 then [digit_char n] else str_nat (n div 10) @ [digit_char (n mod 10)])"

declare str_nat.simps [simp del]

definition format_1f :: "rat \<Rightarrow> string" where
  "format_1f x =
     (let t = nat (round_half_even (10 * \<bar>x\<bar>))
      in (if x < 0 then ''-'' else []) @ str_nat (t div 10) @ ''.'' @ str_nat (t mod 10))"

type_synonym template = "string \<Rightarrow> nat \<Rightarrow> rat \<Rightarrow> error + string"

definition default_fmt :: template where
  "default_fmt logic petal_size percentage =
     Inr (str_nat petal_size @ '' ('' @ format_1f percentage @ ''%)'')"

subsection \<open>\<^verbatim>\<open>generate_petals\<close> (lines 54-76)\<close>

text \<open>
  \<^verbatim>\<open>
  def generate_petals(datasets, fmt="{size} ({percentage:.1f}%)"):
      datasets = list(datasets)
      n_sets = len(datasets)
      dataset_union = set.union(*datasets)
      universe_size = len(dataset_union)
      petals = {}
      for logic in generate_logics(n_sets):
          included_sets = [
              datasets[i] for i in range(n_sets) if logic[i] == "1"
          ]
          excluded_sets = [
              datasets[i] for i in range(n_sets) if logic[i] == "0"
          ]
          petal_set = (
              (dataset_union & set.intersection(*included_sets)) -
              set.union(set(), *excluded_sets)
          )
          petals[logic] = fmt.format(
              logic=logic, size=len(petal_set),
              percentage=(100*len(petal_set)/universe_size)
          )
      return petals
  \<close>
  \<open>petal_set\<close> is the value of the variable \<^verbatim>\<open>petal_set\<close> in one iteration of the loop
  (lines 62-71). \<^verbatim>\<open>logic[i]\<close> raises \<^verbatim>\<open>IndexError\<close> as soon as \<open>i\<close> reaches the length of
  \<^verbatim>\<open>logic\<close>, which happens in the first comprehension if \<^verbatim>\<open>logic\<close> is shorter than
  \<^verbatim>\<open>n_sets\<close>; \<^verbatim>\<open>datasets[i]\<close> is always in range. \<open>petals_loop\<close> is the \<^verbatim>\<open>for\<close> loop, with the
  dictionary \<^verbatim>\<open>petals\<close> as its accumulator: the arguments of \<^verbatim>\<open>fmt.format\<close> are evaluated
  before the call, so the division fails before the template is looked at, and an
  exception leaves the loop with nothing returned. \<^verbatim>\<open>petals[logic] = ...\<close> on a dictionary
  is \<open>AList.update\<close>: a new key goes to the end, a present key keeps its place.
\<close>

definition petal_set :: "'a fset list \<Rightarrow> 'a fset \<Rightarrow> string \<Rightarrow> error + 'a fset" where
  "petal_set datasets dataset_union logic =
     (let n_sets = length datasets in
      if length logic < n_sets then Inl IndexError
      else
        let included_sets =
              map (\<lambda>i. datasets ! i) (filter (\<lambda>i. logic ! i = CHR ''1'') [0..<n_sets]);
            excluded_sets =
              map (\<lambda>i. datasets ! i) (filter (\<lambda>i. logic ! i = CHR ''0'') [0..<n_sets])
        in case set_intersection included_sets of
             Inl e \<Rightarrow> Inl e
           | Inr included \<Rightarrow>
               (case set_union ({||} # excluded_sets) of
                  Inl e \<Rightarrow> Inl e
                | Inr excluded \<Rightarrow> Inr ((dataset_union |\<inter>| included) |-| excluded)))"

fun petals_loop ::
  "'a fset list \<Rightarrow> 'a fset \<Rightarrow> nat \<Rightarrow> template \<Rightarrow> string list \<Rightarrow> (string \<times> string) list
     \<Rightarrow> error + (string \<times> string) list" where
  "petals_loop datasets dataset_union universe_size fmt [] petals = Inr petals"
| "petals_loop datasets dataset_union universe_size fmt (logic # logics) petals =
     (case petal_set datasets dataset_union logic of
        Inl e \<Rightarrow> Inl e
      | Inr petal \<Rightarrow>
          (case true_div (100 * fcard petal) universe_size of
             Inl e \<Rightarrow> Inl e
           | Inr percentage \<Rightarrow>
               (case fmt logic (fcard petal) percentage of
                  Inl e \<Rightarrow> Inl e
                | Inr description \<Rightarrow>
                    petals_loop datasets dataset_union universe_size fmt logics
                      (AList.update logic description petals))))"

definition generate_petals ::
  "'a fset list \<Rightarrow> template \<Rightarrow> error + (string \<times> string) list" where
  "generate_petals datasets fmt =
     (let n_sets = length datasets in
      case set_union datasets of
        Inl e \<Rightarrow> Inl e
      | Inr dataset_union \<Rightarrow>
          let universe_size = fcard dataset_union
          in petals_loop datasets dataset_union universe_size fmt (generate_logics n_sets) [])"

subsection \<open>\<^verbatim>\<open>generate_petals\<close> on an explicit object store\<close>

text \<open>
  A Python set is a mutable object, and the datasets that \<^verbatim>\<open>generate_petals\<close> receives are
  references to such objects, which the caller still holds after the call. To state what
  the call does to them, lines 54-76 are written a second time over a store: the list of
  the set objects that exist, a reference being a position in it. Every operation the
  source applies to a set (\<^verbatim>\<open>set.union\<close>, \<^verbatim>\<open>set.intersection\<close>, \<^verbatim>\<open>&\<close>, \<^verbatim>\<open>-\<close>, \<^verbatim>\<open>set()\<close>) builds a
  new object, \<open>new_set\<close>, and \<^verbatim>\<open>len\<close> reads one; the source has no call that changes a set
  in place (\<^verbatim>\<open>add\<close>, \<^verbatim>\<open>update\<close>, \<^verbatim>\<open>|=\<close>, \<^verbatim>\<open>&=\<close>, \<^verbatim>\<open>-=\<close>). \<^verbatim>\<open>list(datasets)\<close> copies the sequence of
  references, and the dictionary \<^verbatim>\<open>petals\<close> is created by the call. Each function returns
  its result and the store it leaves.
\<close>

type_synonym 'a store = "'a fset list"

definition new_set :: "'a fset \<Rightarrow> 'a store \<Rightarrow> nat \<times> 'a store" where
  "new_set s h = (length h, h @ [s])"

definition set_union_st :: "nat list \<Rightarrow> 'a store \<Rightarrow> (error + nat) \<times> 'a store" where
  "set_union_st refs h =
     (case refs of
        [] \<Rightarrow> (Inl TypeError, h)
      | s # others \<Rightarrow>
          (case new_set (fold (\<lambda>t acc. acc |\<union>| h ! t) others (h ! s)) h of
             (r, h') \<Rightarrow> (Inr r, h')))"

definition set_intersection_st :: "nat list \<Rightarrow> 'a store \<Rightarrow> (error + nat) \<times> 'a store" where
  "set_intersection_st refs h =
     (case refs of
        [] \<Rightarrow> (Inl TypeError, h)
      | s # others \<Rightarrow>
          (case new_set (fold (\<lambda>t acc. acc |\<inter>| h ! t) others (h ! s)) h of
             (r, h') \<Rightarrow> (Inr r, h')))"

definition petal_set_st ::
  "nat list \<Rightarrow> nat \<Rightarrow> string \<Rightarrow> 'a store \<Rightarrow> (error + nat) \<times> 'a store" where
  "petal_set_st datasets dataset_union logic h =
     (let n_sets = length datasets in
      if length logic < n_sets then (Inl IndexError, h)
      else
        let included_sets =
              map (\<lambda>i. datasets ! i) (filter (\<lambda>i. logic ! i = CHR ''1'') [0..<n_sets]);
            excluded_sets =
              map (\<lambda>i. datasets ! i) (filter (\<lambda>i. logic ! i = CHR ''0'') [0..<n_sets])
        in case set_intersection_st included_sets h of
             (Inl e, h1) \<Rightarrow> (Inl e, h1)
           | (Inr included, h1) \<Rightarrow>
               (case new_set (h1 ! dataset_union |\<inter>| h1 ! included) h1 of
                  (common, h2) \<Rightarrow>
               (case new_set {||} h2 of
                  (fresh, h3) \<Rightarrow>
               (case set_union_st (fresh # excluded_sets) h3 of
                  (Inl e, h4) \<Rightarrow> (Inl e, h4)
                | (Inr excluded, h4) \<Rightarrow>
                    (case new_set (h4 ! common |-| h4 ! excluded) h4 of
                       (petal, h5) \<Rightarrow> (Inr petal, h5))))))"

fun petals_loop_st ::
  "nat list \<Rightarrow> nat \<Rightarrow> nat \<Rightarrow> template \<Rightarrow> string list \<Rightarrow> (string \<times> string) list \<Rightarrow> 'a store
     \<Rightarrow> (error + (string \<times> string) list) \<times> 'a store" where
  "petals_loop_st datasets dataset_union universe_size fmt [] petals h = (Inr petals, h)"
| "petals_loop_st datasets dataset_union universe_size fmt (logic # logics) petals h =
     (case petal_set_st datasets dataset_union logic h of
        (Inl e, h') \<Rightarrow> (Inl e, h')
      | (Inr petal, h') \<Rightarrow>
          (case true_div (100 * fcard (h' ! petal)) universe_size of
             Inl e \<Rightarrow> (Inl e, h')
           | Inr percentage \<Rightarrow>
               (case fmt logic (fcard (h' ! petal)) percentage of
                  Inl e \<Rightarrow> (Inl e, h')
                | Inr description \<Rightarrow>
                    petals_loop_st datasets dataset_union universe_size fmt logics
                      (AList.update logic description petals) h')))"

definition generate_petals_st ::
  "nat list \<Rightarrow> template \<Rightarrow> 'a store \<Rightarrow> (error + (string \<times> string) list) \<times> 'a store" where
  "generate_petals_st datasets fmt h =
     (let n_sets = length datasets in
      case set_union_st datasets h of
        (Inl e, h1) \<Rightarrow> (Inl e, h1)
      | (Inr dataset_union, h1) \<Rightarrow>
          let universe_size = fcard (h1 ! dataset_union)
          in petals_loop_st datasets dataset_union universe_size fmt (generate_logics n_sets)
               [] h1)"

subsection \<open>\<^verbatim>\<open>venn\<close> (lines 87-110) and the helpers it calls\<close>

text \<open>
  matplotlib is outside the repository. An axes object is represented by the list of
  the calls made on it, in order, with the arguments the source passes; a new one
  (\<^verbatim>\<open>subplots\<close>) starts with the call that created it. Numbers that are only handed on to
  matplotlib (coordinates, dimensions, angles, font size) have an arbitrary type \<open>'v\<close>, and
  colours an arbitrary type \<open>'c\<close>.
\<close>

datatype ('v, 'c) call =
    Subplots "'v \<times> 'v"
  | SetAxes
  | AddEllipse 'v 'v 'v 'v 'v 'c 'c
  | AddPolygon "('v \<times> 'v) list" 'c 'c
  | AxText 'v 'v string 'v
  | AxLegend "string list" string 'v

type_synonym ('v, 'c) axes = "('v, 'c) call list"

text \<open>
  The tables of \<^verbatim>\<open>_constants.py\<close> (line 5-6) are not among the source files: they are a
  parameter of \<open>venn\<close>. Each is a dictionary keyed by the number of sets; a dictionary is an
  association list, and a missing key raises \<^verbatim>\<open>KeyError\<close>.
\<close>

record 'v constants =
  SHAPE_COORDS :: "(nat \<times> 'v list list) list"
  SHAPE_DIMS :: "(nat \<times> 'v list list) list"
  SHAPE_ANGLES :: "(nat \<times> 'v list) list"
  PETAL_LABEL_COORDS :: "(nat \<times> (string \<times> 'v \<times> 'v) list) list"

text \<open>
  \<^verbatim>\<open>select_colors\<close> (lines 8-17). The check of line 10 is the source's; what matplotlib
  computes from \<^verbatim>\<open>cmap\<close> and \<^verbatim>\<open>alpha\<close> in lines 12-16 (a list of colours, or an exception for
  a colour or colour map it does not know) is the parameter \<open>palette\<close>; line 17 keeps the
  first \<open>n_colors\<close> of them.
\<close>

definition select_colors :: "nat \<Rightarrow> (nat \<Rightarrow> error + 'c list) \<Rightarrow> error + 'c list" where
  "select_colors n_colors palette =
     (if n_colors < 2 \<or> 6 < n_colors
      then Inl (ValueError ''n_colors must be an integer between 2 and 6'')
      else case palette n_colors of
             Inl e \<Rightarrow> Inl e
           | Inr colors \<Rightarrow> Inr (take n_colors colors))"

text \<open>
  \<^verbatim>\<open>draw_ellipse\<close>, \<^verbatim>\<open>draw_triangle\<close> (lines 24-40), called as
  \<^verbatim>\<open>draw_shape(ax, *coords, *dims, angle, color)\<close>: the unpacked arguments are a list, and a
  call with the wrong number of them raises \<^verbatim>\<open>TypeError\<close>. The edge colour is
  \<^verbatim>\<open>less_transparent_color(color)\<close> (lines 19-22), a computation of matplotlib's on the
  colour: the parameter \<open>edge\<close>. \<^verbatim>\<open>draw_text\<close> (lines 42-47) is the call \<open>AxText\<close>.
\<close>

fun draw_ellipse ::
  "('c \<Rightarrow> 'c) \<Rightarrow> ('v, 'c) axes \<Rightarrow> 'v list \<Rightarrow> 'c \<Rightarrow> error + ('v, 'c) axes" where
  "draw_ellipse edge ax [x, y, w, h, a] color =
     Inr (ax @ [AddEllipse x y w h a color (edge color)])"
| "draw_ellipse edge ax args color = Inl TypeError"

fun draw_triangle ::
  "('c \<Rightarrow> 'c) \<Rightarrow> ('v, 'c) axes \<Rightarrow> 'v list \<Rightarrow> 'c \<Rightarrow> error + ('v, 'c) axes" where
  "draw_triangle edge ax [x1, y1, x2, y2, x3, y3, dim, angle] color =
     Inr (ax @ [AddPolygon [(x1, y1), (x2, y2), (x3, y3)] color (edge color)])"
| "draw_triangle edge ax args color = Inl TypeError"

text \<open>\<^verbatim>\<open>init_axes\<close> (lines 78-85).\<close>

definition init_axes :: "('v, 'c) axes option \<Rightarrow> 'v \<times> 'v \<Rightarrow> ('v, 'c) axes" where
  "init_axes ax figsize =
     (case ax of None \<Rightarrow> [Subplots figsize] | Some a \<Rightarrow> a) @ [SetAxes]"

text \<open>
  \<^verbatim>\<open>
  def venn(*, petals, labels, cmap="viridis", alpha=.4, figsize=(8, 8), fontsize=13,
           legend_loc="upper right", ax=None):
      n_sets = len(labels)
      for logic in petals.keys():
          if len(logic) != n_sets:
              raise ValueError("Inconsistent petal and dataset labels")
      if 2 <= n_sets < 6:
          draw_shape = draw_ellipse
      elif n_sets == 6:
          draw_shape = draw_triangle
      else:
          raise ValueError("Number of sets must be between 2 and 6")
      colors = select_colors(n_colors=n_sets, cmap=cmap, alpha=alpha)
      ax = init_axes(ax, figsize)
      shape_params = zip(
          SHAPE_COORDS[n_sets], SHAPE_DIMS[n_sets], SHAPE_ANGLES[n_sets], colors
      )
      for coords, dims, angle, color in shape_params:
          draw_shape(ax, *coords, *dims, angle, color)
      for logic, (x, y) in PETAL_LABEL_COORDS[n_sets].items():
          draw_text(ax, x, y, petals[logic], fontsize)
      if legend_loc is not None:
          ax.legend(labels, loc=legend_loc, prop={"size": fontsize})
      return ax.figure, ax
  \<close>
  \<open>draw_shapes\<close> and \<open>draw_labels\<close> are the two drawing loops. The result of \<open>venn\<close> is the
  exception raised, if any, and the axes as the call leaves them: \<open>None\<close> when no axes were
  passed in and none were created, and on an exception the axes with what had been drawn
  before it. A normal return is \<open>(None, Some ax)\<close>, the figure of the axes \<open>ax\<close>.
\<close>

fun draw_shapes ::
  "(('v, 'c) axes \<Rightarrow> 'v list \<Rightarrow> 'c \<Rightarrow> error + ('v, 'c) axes) \<Rightarrow> ('v, 'c) axes
     \<Rightarrow> ('v list \<times> 'v list \<times> 'v \<times> 'c) list \<Rightarrow> error option \<times> ('v, 'c) axes" where
  "draw_shapes draw_shape ax [] = (None, ax)"
| "draw_shapes draw_shape ax ((coords, dims, angle, color) # shape_params) =
     (case draw_shape ax (coords @ dims @ [angle]) color of
        Inl e \<Rightarrow> (Some e, ax)
      | Inr ax' \<Rightarrow> draw_shapes draw_shape ax' shape_params)"

fun draw_labels ::
  "(string \<times> string) list \<Rightarrow> 'v \<Rightarrow> ('v, 'c) axes \<Rightarrow> (string \<times> 'v \<times> 'v) list
     \<Rightarrow> error option \<times> ('v, 'c) axes" where
  "draw_labels petals fontsize ax [] = (None, ax)"
| "draw_labels petals fontsize ax ((logic, x, y) # label_coords) =
     (case map_of petals logic of
        None \<Rightarrow> (Some KeyError, ax)
      | Some description \<Rightarrow>
          draw_labels petals fontsize (ax @ [AxText x y description fontsize]) label_coords)"

definition venn ::
  "'v constants \<Rightarrow> (nat \<Rightarrow> error + 'c list) \<Rightarrow> ('c \<Rightarrow> 'c) \<Rightarrow> (string \<times> string) list
     \<Rightarrow> string list \<Rightarrow> 'v \<times> 'v \<Rightarrow> 'v \<Rightarrow> string option \<Rightarrow> ('v, 'c) axes option
     \<Rightarrow> error option \<times> ('v, 'c) axes option" where
  "venn K palette edge petals labels figsize fontsize legend_loc ax =
     (let n_sets = length labels in
      if list_ex (\<lambda>logic. length logic \<noteq> n_sets) (map fst petals)
      then (Some (ValueError ''Inconsistent petal and dataset labels''), ax)
      else
        case (if 2 \<le> n_sets \<and> n_sets < 6 then Inr (draw_ellipse edge)
              else if n_sets = 6 then Inr (draw_triangle edge)
              else Inl (ValueError ''Number of sets must be between 2 and 6'')) of
          Inl e \<Rightarrow> (Some e, ax)
        | Inr draw_shape \<Rightarrow>
            (case select_colors n_sets palette of
               Inl e \<Rightarrow> (Some e, ax)
             | Inr colors \<Rightarrow>
                 let ax1 = init_axes ax figsize in
                 (case map_of (SHAPE_COORDS K) n_sets of
                    None \<Rightarrow> (Some KeyError, Some ax1)
                  | Some coords \<Rightarrow>
                 (case map_of (SHAPE_DIMS K) n_sets of
                    None \<Rightarrow> (Some KeyError, Some ax1)
                  | Some dims \<Rightarrow>
                 (case map_of (SHAPE_ANGLES K) n_sets of
                    None \<Rightarrow> (Some KeyError, Some ax1)
                  | Some angles \<Rightarrow>
                 (case draw_shapes draw_shape ax1 (zip coords (zip dims (zip angles colors))) of
                    (Some e, ax2) \<Rightarrow> (Some e, Some ax2)
                  | (None, ax2) \<Rightarrow>
                 (case map_of (PETAL_LABEL_COORDS K) n_sets of
                    None \<Rightarrow> (Some KeyError, Some ax2)
                  | Some label_coords \<Rightarrow>
                 (case draw_labels petals fontsize ax2 label_coords of
                    (Some e, ax3) \<Rightarrow> (Some e, Some ax3)
                  | (None, ax3) \<Rightarrow>
                      (None, Some (case legend_loc of
                                     None \<Rightarrow> ax3
                                   | Some loc \<Rightarrow> ax3 @ [AxLegend labels loc fontsize]))))))))))"

text \<open>
  Modelled from the spec: the layout tables of \<^verbatim>\<open>_constants.py\<close> are missing from the source
  files. Section 4.3 of the specification describes them: for each valid number of sets a
  label coordinate for each pattern and as many shape tuples as there are sets. This is
  such a table for two sets (two circles of diameter one half), used where a concrete
  table is needed; \<open>example_palette\<close> stands for two colours of matplotlib's.
\<close>

definition example_constants :: "rat constants" where
  "example_constants =
     \<lparr> SHAPE_COORDS = [(2, [[3 / 8, 1 / 2], [5 / 8, 1 / 2]])],
       SHAPE_DIMS = [(2, [[1 / 2, 1 / 2], [1 / 2, 1 / 2]])],
       SHAPE_ANGLES = [(2, [0, 0])],
       PETAL_LABEL_COORDS =
         [(2, [(''01'', 37 / 50, 1 / 2), (''10'', 13 / 50, 1 / 2), (''11'', 1 / 2, 1 / 2)])] \<rparr>"

definition example_palette :: "nat \<Rightarrow> error + string list" where
  "example_palette n = Inr (take n [''purple'', ''yellow''])"

text \<open>
  The membership signature of an element: the pattern that has \<^verbatim>\<open>1\<close> exactly at the
  datasets the element belongs to. It is used to state which petal an element falls in;
  it is not part of the source.
\<close>

definition signature :: "'a fset list \<Rightarrow> 'a \<Rightarrow> string" where
  "signature datasets x = map (\<lambda>d. if x |\<in>| d then CHR ''1'' else CHR ''0'') datasets"

section \<open>The pattern enumeration\<close>

lemma bin_value_snoc:
  "bin_value (s @ [c]) = 2 * bin_value s + (if c = CHR ''1'' then 1 else 0)"
  by (simp add: bin_value_def)

lemma bin_value_bit_char: "d < 2 \<Longrightarrow> bin_value [bit_char d] = d"
  by (auto simp: bin_value_def bit_char_def)

lemma bin_value_bin_digits: "bin_value (bin_digits i) = i"
proof (induction i rule: bin_digits.induct)
  case (1 i)
  show ?case
  proof (cases "i < 2")
    case True
    then show ?thesis by (simp add: bin_digits.simps [of i] bin_value_bit_char)
  next
    case False
    with 1 have "bin_value (bin_digits (i div 2)) = i div 2" by simp
    moreover have "2 * (i div 2) + (if bit_char (i mod 2) = CHR ''1'' then 1 else 0) = i"
      by (simp add: bit_char_def) presburger
    ultimately show ?thesis using False
      by (simp add: bin_digits.simps [of i] bin_value_snoc)
  qed
qed

lemma set_bin_digits: "set (bin_digits i) \<subseteq> {CHR ''0'', CHR ''1''}"
proof (induction i rule: bin_digits.induct)
  case (1 i)
  then show ?case
    by (cases "i < 2") (auto simp: bin_digits.simps [of i] bit_char_def)
qed

lemma length_bin_digits: "i < 2 ^ n \<Longrightarrow> 0 < n \<Longrightarrow> length (bin_digits i) \<le> n"
proof (induction i arbitrary: n rule: bin_digits.induct)
  case (1 i)
  show ?case
  proof (cases "i < 2")
    case True
    then show ?thesis using "1.prems" by (simp add: bin_digits.simps [of i])
  next
    case False
    obtain m where n: "n = Suc m" using "1.prems" by (cases n) auto
    have m: "0 < m" using False "1.prems" n by (cases m) auto
    have "i div 2 < 2 ^ m" using "1.prems" n by auto
    with 1 False m have "length (bin_digits (i div 2)) \<le> m" by simp
    then show ?thesis using False n by (simp add: bin_digits.simps [of i])
  qed
qed

lemma bin_digits_nonempty: "bin_digits i \<noteq> []"
  by (simp add: bin_digits.simps [of i])

lemma zfill_bin_digits:
  "zfill n (bin_digits i) = replicate (n - length (bin_digits i)) CHR ''0'' @ bin_digits i"
proof -
  obtain c rest where s: "bin_digits i = c # rest"
    using bin_digits_nonempty [of i] by (cases "bin_digits i") auto
  have "c \<in> {CHR ''0'', CHR ''1''}" using set_bin_digits [of i] s by auto
  then show ?thesis by (auto simp: zfill_def s)
qed

lemma bin_value_zeros: "bin_value (replicate k CHR ''0'' @ s) = bin_value s"
proof -
  have "foldl (\<lambda>acc c. 2 * acc + (if c = CHR ''1'' then 1 else 0)) (0::nat)
          (replicate k CHR ''0'') = 0"
    by (induction k) simp_all
  then show ?thesis by (simp add: bin_value_def)
qed

lemma bin_value_logic: "bin_value (zfill n (drop 2 (py_bin i))) = i"
  by (simp add: py_bin_def zfill_bin_digits bin_value_zeros bin_value_bin_digits)

lemma length_logic: "i < 2 ^ n \<Longrightarrow> 0 < n \<Longrightarrow> length (zfill n (drop 2 (py_bin i))) = n"
  using length_bin_digits [of i n] by (simp add: py_bin_def zfill_bin_digits)

lemma set_logic: "set (zfill n (drop 2 (py_bin i))) \<subseteq> {CHR ''0'', CHR ''1''}"
  using set_bin_digits [of i] by (auto simp: py_bin_def zfill_bin_digits)

lemma map_bin_value_generate_logics: "map bin_value (generate_logics n) = [1..<2 ^ n]"
  by (simp add: generate_logics_def bin_value_logic comp_def map_idI)

lemma length_generate_logics: "length (generate_logics n) = 2 ^ n - 1"
  by (simp add: generate_logics_def)

lemma distinct_generate_logics: "distinct (generate_logics n)"
proof -
  have "distinct (map bin_value (generate_logics n))"
    by (simp add: map_bin_value_generate_logics)
  then show ?thesis by (simp add: distinct_map)
qed

lemma generate_logics_length: "s \<in> set (generate_logics n) \<Longrightarrow> length s = n"
proof -
  assume "s \<in> set (generate_logics n)"
  then obtain i where i: "1 \<le> i" "i < 2 ^ n" and s: "s = zfill n (drop 2 (py_bin i))"
    by (auto simp: generate_logics_def)
  have "0 < n" using i by (cases n) auto
  then show ?thesis using i s length_logic by simp
qed

lemma generate_logics_alphabet:
  "s \<in> set (generate_logics n) \<Longrightarrow> set s \<subseteq> {CHR ''0'', CHR ''1''}"
  using set_logic by (auto simp: generate_logics_def)

lemma bin_value_all_zero: "bin_value (replicate n CHR ''0'') = 0"
  using bin_value_zeros [of n "[]"] by (simp add: bin_value_def)

lemma generate_logics_nonzero: "replicate n CHR ''0'' \<notin> set (generate_logics n)"
proof
  assume "replicate n CHR ''0'' \<in> set (generate_logics n)"
  then have "bin_value (replicate n CHR ''0'') \<in> set (map bin_value (generate_logics n))"
    by (simp only: set_map) (rule imageI)
  then show False by (simp add: map_bin_value_generate_logics bin_value_all_zero)
qed

text \<open>
  Claim C2. For every \<open>n\<close> with \<open>2 \<le> n \<le> 6\<close>, \<open>generate_logics n\<close> is a list of exactly
  \<open>2 ^ n - 1\<close> distinct strings, each of length \<open>n\<close> over the alphabet \<^verbatim>\<open>0\<close>, \<^verbatim>\<open>1\<close>; read as
  binary numerals they are \<open>1, 2, \<dots>, 2 ^ n - 1\<close> in this order, hence strictly
  ascending; and the all-zero string is not among them.
\<close>

theorem generate_logics_enumeration:
  "2 \<le> n \<Longrightarrow> n \<le> 6 \<Longrightarrow>
     length (generate_logics n) = 2 ^ n - 1
     \<and> distinct (generate_logics n)
     \<and> (\<forall>s \<in> set (generate_logics n). length s = n \<and> set s \<subseteq> {CHR ''0'', CHR ''1''})
     \<and> map bin_value (generate_logics n) = [1..<2 ^ n]
     \<and> sorted_wrt (<) (map bin_value (generate_logics n))
     \<and> replicate n CHR ''0'' \<notin> set (generate_logics n)"
  by (simp add: length_generate_logics distinct_generate_logics generate_logics_length
      generate_logics_alphabet map_bin_value_generate_logics generate_logics_nonzero)

theorem generate_logics_enumeration_witness:
  "(2::nat) \<le> 2 \<and> (2::nat) \<le> 6
   \<and> generate_logics 2 = [''01'', ''10'', ''11'']
   \<and> length (generate_logics 2) = 3
   \<and> distinct (generate_logics 2)
   \<and> map bin_value (generate_logics 2) = [1, 2, 3]
   \<and> ''00'' \<notin> set (generate_logics 2)"
proof -
  have e: "generate_logics 2 = [''01'', ''10'', ''11'']"
    by (simp add: generate_logics_def py_bin_def zfill_def bin_digits.simps bit_char_def upt_rec)
  have v: "map bin_value [''01'', ''10'', ''11''] = [1, 2, 3]"
    by (simp add: bin_value_def)
  show ?thesis
    using generate_logics_enumeration [of 2] by (simp add: e v del: list.map)
qed

section \<open>Evaluation at the documented example\<close>

lemma upt_2: "[0..<2] = [0, 1]"
  by (simp add: upt_rec)

lemma e_logics2: "generate_logics 2 = [''01'', ''10'', ''11'']"
  by (simp add: generate_logics_def py_bin_def zfill_def bin_digits.simps bit_char_def upt_rec)

lemma e_union: "set_union [{|1, 2, 3|}, {|2, 3, 4::int|}] = Inr {|1, 2, 3, 4|}"
  by auto

lemma e_p01: "petal_set [{|1, 2, 3|}, {|2, 3, 4::int|}] {|1, 2, 3, 4|} ''01'' = Inr {|4|}"
  by (auto simp: petal_set_def upt_2)

lemma e_p10: "petal_set [{|1, 2, 3|}, {|2, 3, 4::int|}] {|1, 2, 3, 4|} ''10'' = Inr {|1|}"
  by (auto simp: petal_set_def upt_2)

lemma e_p11: "petal_set [{|1, 2, 3|}, {|2, 3, 4::int|}] {|1, 2, 3, 4|} ''11'' = Inr {|2, 3|}"
  by (auto simp: petal_set_def upt_2)

lemma e_div1: "true_div 100 4 = Inr 25"
  by (simp add: true_div_def floor_log2_def bit_length.simps pow2_def round_half_even_def Let_def)

lemma e_div2: "true_div 200 4 = Inr 50"
  by (simp add: true_div_def floor_log2_def bit_length.simps pow2_def round_half_even_def Let_def)

lemma e_fmt1: "default_fmt logic (Suc 0) 25 = Inr ''1 (25.0%)''"
  by (simp add: default_fmt_def format_1f_def round_half_even_def str_nat.simps digit_char_def Let_def)

lemma e_fmt2: "default_fmt logic 2 50 = Inr ''2 (50.0%)''"
  by (simp add: default_fmt_def format_1f_def round_half_even_def str_nat.simps digit_char_def Let_def)

lemma e_card:
  "fcard {|1, 2, 3, 4::int|} = 4" "fcard {|4::int|} = 1" "fcard {|1::int|} = 1"
  "fcard {|2, 3::int|} = 2"
  by (simp_all add: fcard_finsert_if)

lemma e_petals:
  "generate_petals [{|1, 2, 3|}, {|2, 3, 4::int|}] default_fmt
     = Inr [(''01'', ''1 (25.0%)''), (''10'', ''1 (25.0%)''), (''11'', ''2 (50.0%)'')]"
  unfolding generate_petals_def Let_def e_union
  by (simp add: e_logics2 [unfolded numeral_2_eq_2] e_p01 e_p10 e_p11 e_card e_div1 e_div2
      e_fmt1 e_fmt2 del: set_union.simps)

text \<open>A second example, in which the two datasets differ in size.\<close>

lemma b_union: "set_union [{|1, 2, 3, 9|}, {|2, 3, 4::int|}] = Inr {|1, 2, 3, 4, 9|}"
  by auto

lemma b_p01: "petal_set [{|1, 2, 3, 9|}, {|2, 3, 4::int|}] {|1, 2, 3, 4, 9|} ''01'' = Inr {|4|}"
  by (auto simp: petal_set_def upt_2)

lemma b_p10: "petal_set [{|1, 2, 3, 9|}, {|2, 3, 4::int|}] {|1, 2, 3, 4, 9|} ''10'' = Inr {|1, 9|}"
  by (auto simp: petal_set_def upt_2)

lemma b_p11: "petal_set [{|1, 2, 3, 9|}, {|2, 3, 4::int|}] {|1, 2, 3, 4, 9|} ''11'' = Inr {|2, 3|}"
  by (auto simp: petal_set_def upt_2)

lemma b_card:
  "fcard {|1, 2, 3, 4, 9::int|} = 5" "fcard {|1, 9::int|} = 2"
  by (simp_all add: fcard_finsert_if)

lemma b_div1: "true_div 100 5 = Inr 20"
  by (simp add: true_div_def floor_log2_def bit_length.simps pow2_def round_half_even_def Let_def)

lemma b_div2: "true_div 200 5 = Inr 40"
  by (simp add: true_div_def floor_log2_def bit_length.simps pow2_def round_half_even_def Let_def)

lemma b_fmt1: "default_fmt logic (Suc 0) 20 = Inr ''1 (20.0%)''"
  by (simp add: default_fmt_def format_1f_def round_half_even_def str_nat.simps digit_char_def Let_def)

lemma b_fmt2: "default_fmt logic 2 40 = Inr ''2 (40.0%)''"
  by (simp add: default_fmt_def format_1f_def round_half_even_def str_nat.simps digit_char_def Let_def)

lemma b_petals:
  "generate_petals [{|1, 2, 3, 9|}, {|2, 3, 4::int|}] default_fmt
     = Inr [(''01'', ''1 (20.0%)''), (''10'', ''2 (40.0%)''), (''11'', ''2 (40.0%)'')]"
  unfolding generate_petals_def Let_def b_union
  by (simp add: e_logics2 [unfolded numeral_2_eq_2] b_p01 b_p10 b_p11 e_card b_card b_div1 b_div2
      b_fmt1 b_fmt2 del: set_union.simps)

section \<open>Petal sets\<close>

lemma fold_union_member:
  "x |\<in>| fold (\<lambda>t acc. acc |\<union>| t) others s \<longleftrightarrow> x |\<in>| s \<or> (\<exists>t \<in> set others. x |\<in>| t)"
  by (induction others arbitrary: s) auto

lemma fold_inter_member:
  "x |\<in>| fold (\<lambda>t acc. acc |\<inter>| t) others s \<longleftrightarrow> x |\<in>| s \<and> (\<forall>t \<in> set others. x |\<in>| t)"
  by (induction others arbitrary: s) auto

lemma set_union_member:
  "set_union ss = Inr u \<Longrightarrow> x |\<in>| u \<longleftrightarrow> (\<exists>t \<in> set ss. x |\<in>| t)"
  by (cases ss) (auto simp: fold_union_member)

lemma set_intersection_member:
  "set_intersection ss = Inr u \<Longrightarrow> x |\<in>| u \<longleftrightarrow> (\<forall>t \<in> set ss. x |\<in>| t)"
  by (cases ss) (auto simp: fold_inter_member)

lemma set_union_Inr: "ss \<noteq> [] \<Longrightarrow> \<exists>u. set_union ss = Inr u"
  by (cases ss) auto

lemma set_intersection_Inr: "ss \<noteq> [] \<Longrightarrow> \<exists>u. set_intersection ss = Inr u"
  by (cases ss) auto

lemma set_union_fset: "set_union datasets = Inr U \<Longrightarrow> fset U = (\<Union>d \<in> set datasets. fset d)"
  using set_union_member [of datasets U] by auto

lemma petal_set_member:
  assumes len: "length datasets \<le> length logic"
    and one: "\<exists>i < length datasets. logic ! i = CHR ''1''"
  shows "\<exists>petal. petal_set datasets dataset_union logic = Inr petal
           \<and> (\<forall>x. x |\<in>| petal \<longleftrightarrow>
                  x |\<in>| dataset_union
                  \<and> (\<forall>i < length datasets. logic ! i = CHR ''1'' \<longrightarrow> x |\<in>| datasets ! i)
                  \<and> (\<forall>i < length datasets. logic ! i = CHR ''0'' \<longrightarrow> x |\<notin>| datasets ! i))"
proof -
  let ?inc = "map (\<lambda>i. datasets ! i) (filter (\<lambda>i. logic ! i = CHR ''1'') [0..<length datasets])"
  let ?exc = "map (\<lambda>i. datasets ! i) (filter (\<lambda>i. logic ! i = CHR ''0'') [0..<length datasets])"
  have "?inc \<noteq> []" using one by (auto simp: filter_empty_conv)
  then obtain inc where inc: "set_intersection ?inc = Inr inc"
    using set_intersection_Inr by blast
  obtain exc where exc: "set_union ({||} # ?exc) = Inr exc"
    using set_union_Inr [of "{||} # ?exc"] by blast
  have p: "petal_set datasets dataset_union logic = Inr ((dataset_union |\<inter>| inc) |-| exc)"
    using len inc exc by (simp add: petal_set_def Let_def del: set_union.simps)
  have mi: "x |\<in>| inc \<longleftrightarrow> (\<forall>i < length datasets. logic ! i = CHR ''1'' \<longrightarrow> x |\<in>| datasets ! i)" for x
    using set_intersection_member [OF inc, of x] by auto
  have me: "x |\<in>| exc \<longleftrightarrow> (\<exists>i < length datasets. logic ! i = CHR ''0'' \<and> x |\<in>| datasets ! i)" for x
    using set_union_member [OF exc, of x] by auto
  show ?thesis using p mi me by auto
qed

lemma bin_value_less: "bin_value s < 2 ^ length s"
proof (induction s rule: rev_induct)
  case Nil
  then show ?case by (simp add: bin_value_def)
next
  case (snoc c s)
  then show ?case by (simp add: bin_value_snoc)
qed

lemma bin_value_inj:
  assumes "length s = length t"
    and "set s \<subseteq> {CHR ''0'', CHR ''1''}" and "set t \<subseteq> {CHR ''0'', CHR ''1''}"
    and "bin_value s = bin_value t"
  shows "s = t"
  using assms
proof (induction s arbitrary: t rule: rev_induct)
  case Nil
  then show ?case by simp
next
  case (snoc c s)
  from snoc.prems(1) obtain d u where t: "t = u @ [d]"
    by (cases t rule: rev_cases) auto
  have cd: "c \<in> {CHR ''0'', CHR ''1''}" "d \<in> {CHR ''0'', CHR ''1''}"
    using snoc.prems(2,3) t by auto
  have eq: "2 * bin_value s + (if c = CHR ''1'' then 1 else 0)
          = 2 * bin_value u + (if d = CHR ''1'' then 1 else 0)"
    using snoc.prems(4) t by (simp add: bin_value_snoc)
  have v: "bin_value s = bin_value u"
    using eq by (simp split: if_splits; presburger?)
  have "c = d" using eq v cd by (auto split: if_splits)
  moreover have "s = u"
    using snoc.IH [of u] snoc.prems t v by auto
  ultimately show ?case using t by simp
qed

lemma generate_logics_complete:
  assumes len: "length s = n" and alpha: "set s \<subseteq> {CHR ''0'', CHR ''1''}"
    and nz: "s \<noteq> replicate n CHR ''0''"
  shows "s \<in> set (generate_logics n)"
proof -
  let ?v = "bin_value s"
  let ?t = "zfill n (drop 2 (py_bin ?v))"
  have lt: "?v < 2 ^ n" using bin_value_less [of s] len by simp
  have pos: "1 \<le> ?v"
  proof (rule ccontr)
    assume "\<not> 1 \<le> ?v"
    then have "bin_value s = bin_value (replicate n CHR ''0'')"
      by (simp add: bin_value_all_zero)
    moreover have "set (replicate n CHR ''0'') \<subseteq> {CHR ''0'', CHR ''1''}"
      by (cases n) auto
    ultimately have "s = replicate n CHR ''0''"
      using bin_value_inj [of s "replicate n CHR ''0''"] len alpha by simp
    then show False using nz by simp
  qed
  have n: "0 < n" using lt pos by (cases n) auto
  have "?t \<in> set (generate_logics n)"
    using lt pos by (auto simp: generate_logics_def)
  moreover have "?t = s"
    using bin_value_inj [of ?t s] length_logic [OF lt n] set_logic [of n ?v] len alpha
    by (simp add: bin_value_logic)
  ultimately show ?thesis by simp
qed

lemma set_generate_logics:
  "set (generate_logics n) =
     {s. length s = n \<and> set s \<subseteq> {CHR ''0'', CHR ''1''} \<and> s \<noteq> replicate n CHR ''0''}"
proof (intro set_eqI iffI)
  fix s
  assume "s \<in> set (generate_logics n)"
  then show "s \<in> {s. length s = n \<and> set s \<subseteq> {CHR ''0'', CHR ''1''} \<and> s \<noteq> replicate n CHR ''0''}"
    using generate_logics_length [of s n] generate_logics_alphabet [of s n]
      generate_logics_nonzero [of n] by auto
next
  fix s
  assume "s \<in> {s. length s = n \<and> set s \<subseteq> {CHR ''0'', CHR ''1''} \<and> s \<noteq> replicate n CHR ''0''}"
  then show "s \<in> set (generate_logics n)"
    using generate_logics_complete [of s n] by simp
qed

lemma binary_nonzero_has_one:
  assumes "set s \<subseteq> {CHR ''0'', CHR ''1''}" and "s \<noteq> replicate (length s) CHR ''0''"
  shows "\<exists>i < length s. s ! i = CHR ''1''"
proof (rule ccontr)
  assume "\<not> (\<exists>i < length s. s ! i = CHR ''1'')"
  moreover have "\<forall>i < length s. s ! i \<in> {CHR ''0'', CHR ''1''}"
    using assms(1) nth_mem by blast
  ultimately have "\<forall>i < length s. s ! i = CHR ''0''"
    by blast
  then have "s = replicate (length s) CHR ''0''"
    by (simp add: list_eq_iff_nth_eq)
  then show False using assms(2) by simp
qed

lemma generate_logics_has_one:
  "s \<in> set (generate_logics n) \<Longrightarrow> \<exists>i < n. s ! i = CHR ''1''"
  using binary_nonzero_has_one [of s] by (auto simp: set_generate_logics)

lemma petal_set_generated:
  assumes "logic \<in> set (generate_logics (length datasets))"
  shows "\<exists>petal. petal_set datasets dataset_union logic = Inr petal
           \<and> (\<forall>x. x |\<in>| petal \<longleftrightarrow>
                  x |\<in>| dataset_union
                  \<and> (\<forall>i < length datasets. logic ! i = CHR ''1'' \<longrightarrow> x |\<in>| datasets ! i)
                  \<and> (\<forall>i < length datasets. logic ! i = CHR ''0'' \<longrightarrow> x |\<notin>| datasets ! i))"
  using assms petal_set_member [of datasets logic dataset_union]
    generate_logics_length [of logic "length datasets"]
    generate_logics_has_one [of logic "length datasets"]
  by simp

lemma petal_set_formula:
  assumes U: "set_union datasets = Inr U"
    and logic: "logic \<in> set (generate_logics (length datasets))"
  shows "\<exists>petal. petal_set datasets U logic = Inr petal
           \<and> fset petal =
               (fset U \<inter> (\<Inter>i \<in> {i. i < length datasets \<and> logic ! i = CHR ''1''}. fset (datasets ! i)))
               - (\<Union>i \<in> {i. i < length datasets \<and> logic ! i = CHR ''0''}. fset (datasets ! i))
           \<and> (logic = replicate (length datasets) CHR ''1'' \<longrightarrow>
                 fset petal = (\<Inter>d \<in> set datasets. fset d))"
proof -
  obtain petal where p: "petal_set datasets U logic = Inr petal"
    and m: "\<And>x. x |\<in>| petal \<longleftrightarrow>
                  x |\<in>| U
                  \<and> (\<forall>i < length datasets. logic ! i = CHR ''1'' \<longrightarrow> x |\<in>| datasets ! i)
                  \<and> (\<forall>i < length datasets. logic ! i = CHR ''0'' \<longrightarrow> x |\<notin>| datasets ! i)"
    using petal_set_generated [OF logic, of U] by blast
  have f: "fset petal =
      (fset U \<inter> (\<Inter>i \<in> {i. i < length datasets \<and> logic ! i = CHR ''1''}. fset (datasets ! i)))
      - (\<Union>i \<in> {i. i < length datasets \<and> logic ! i = CHR ''0''}. fset (datasets ! i))"
    using m by auto
  have a: "fset petal = (\<Inter>d \<in> set datasets. fset d)"
    if all: "logic = replicate (length datasets) CHR ''1''"
  proof (intro set_eqI iffI)
    fix x
    assume "x \<in> fset petal"
    then have "\<forall>i < length datasets. x |\<in>| datasets ! i"
      using m [of x] all by simp
    then show "x \<in> (\<Inter>d \<in> set datasets. fset d)"
      by (auto simp: in_set_conv_nth)
  next
    fix x
    assume x: "x \<in> (\<Inter>d \<in> set datasets. fset d)"
    have "datasets \<noteq> []" using U by auto
    then have "\<exists>t \<in> set datasets. x |\<in>| t" using x by (cases datasets) auto
    then have "x |\<in>| U" using set_union_member [OF U, of x] by simp
    moreover have "\<forall>i < length datasets. x |\<in>| datasets ! i" using x by simp
    ultimately show "x \<in> fset petal" using m [of x] all by simp
  qed
  show ?thesis using p f a by blast
qed

lemma signature_generated:
  assumes U: "set_union datasets = Inr U" and x: "x |\<in>| U"
  shows "signature datasets x \<in> set (generate_logics (length datasets))"
proof -
  obtain t where t: "t \<in> set datasets" "x |\<in>| t"
    using set_union_member [OF U, of x] x by blast
  then obtain k where k: "k < length datasets" "datasets ! k = t"
    by (auto simp: in_set_conv_nth)
  have "signature datasets x ! k = CHR ''1''"
    using k t by (simp add: signature_def)
  moreover have "replicate (length datasets) CHR ''0'' ! k = CHR ''0''"
    using k by simp
  ultimately have "signature datasets x \<noteq> replicate (length datasets) CHR ''0''"
    by auto
  moreover have "set (signature datasets x) \<subseteq> {CHR ''0'', CHR ''1''}"
    by (auto simp: signature_def)
  moreover have "length (signature datasets x) = length datasets"
    by (simp add: signature_def)
  ultimately show ?thesis by (simp add: set_generate_logics)
qed

lemma petal_member_signature:
  assumes logic: "logic \<in> set (generate_logics (length datasets))"
    and p: "petal_set datasets U logic = Inr petal"
  shows "x |\<in>| petal \<longleftrightarrow> x |\<in>| U \<and> logic = signature datasets x"
proof -
  have m: "x |\<in>| petal \<longleftrightarrow>
             x |\<in>| U
             \<and> (\<forall>i < length datasets. logic ! i = CHR ''1'' \<longrightarrow> x |\<in>| datasets ! i)
             \<and> (\<forall>i < length datasets. logic ! i = CHR ''0'' \<longrightarrow> x |\<notin>| datasets ! i)"
    using petal_set_generated [OF logic, of U] p by auto
  have len: "length logic = length datasets"
    using logic by (rule generate_logics_length)
  have alpha: "\<forall>i < length datasets. logic ! i = CHR ''0'' \<or> logic ! i = CHR ''1''"
    using generate_logics_alphabet [OF logic] len nth_mem [of _ logic] by fastforce
  have "logic = signature datasets x \<longleftrightarrow>
          (\<forall>i < length datasets. logic ! i = (if x |\<in>| datasets ! i then CHR ''1'' else CHR ''0''))"
    using len by (auto simp: signature_def list_eq_iff_nth_eq)
  also have "\<dots> \<longleftrightarrow>
          (\<forall>i < length datasets. logic ! i = CHR ''1'' \<longrightarrow> x |\<in>| datasets ! i)
          \<and> (\<forall>i < length datasets. logic ! i = CHR ''0'' \<longrightarrow> x |\<notin>| datasets ! i)"
    using alpha by (auto split: if_splits)
  finally show ?thesis using m by simp
qed

lemma sum_fcard_disjoint:
  assumes "\<forall>i < length ps. \<forall>j < length ps. i \<noteq> j \<longrightarrow> ps ! i |\<inter>| ps ! j = {||}"
  shows "sum_list (map fcard ps) = fcard (ffUnion (fset_of_list ps))"
  using assms
proof (induction ps)
  case Nil
  then show ?case by simp
next
  case (Cons p ps)
  have tail: "\<forall>i < length ps. \<forall>j < length ps. i \<noteq> j \<longrightarrow> ps ! i |\<inter>| ps ! j = {||}"
  proof (intro allI impI)
    fix i j
    assume "i < length ps" "j < length ps" "i \<noteq> j"
    then show "ps ! i |\<inter>| ps ! j = {||}"
      using Cons.prems [rule_format, of "Suc i" "Suc j"] by simp
  qed
  have head: "p |\<inter>| q = {||}" if q: "q \<in> set ps" for q
  proof -
    obtain j where "j < length ps" "ps ! j = q"
      using q by (auto simp: in_set_conv_nth)
    then show ?thesis
      using Cons.prems [rule_format, of 0 "Suc j"] by simp
  qed
  have "p |\<inter>| ffUnion (fset_of_list ps) = {||}"
  proof (rule ccontr)
    assume "p |\<inter>| ffUnion (fset_of_list ps) \<noteq> {||}"
    then obtain x where "x |\<in>| p" "x |\<in>| ffUnion (fset_of_list ps)" by auto
    then obtain q where "q \<in> set ps" "x |\<in>| q"
      by (auto simp: ffUnion.rep_eq fset_of_list.rep_eq)
    then show False using head [of q] \<open>x |\<in>| p\<close> by auto
  qed
  then have "fcard (p |\<union>| ffUnion (fset_of_list ps)) = fcard p + fcard (ffUnion (fset_of_list ps))"
    by (rule fcard_funion_disjoint)
  then show ?case using Cons.IH [OF tail] by simp
qed

lemma petals_partition:
  assumes U: "set_union datasets = Inr U" and ne: "U \<noteq> {||}"
  shows "\<exists>ps. map (petal_set datasets U) (generate_logics (length datasets)) = map Inr ps
           \<and> (\<forall>i < length ps. \<forall>j < length ps. i \<noteq> j \<longrightarrow> ps ! i |\<inter>| ps ! j = {||})
           \<and> ffUnion (fset_of_list ps) = U
           \<and> sum_list (map fcard ps) = fcard U"
proof -
  let ?logics = "generate_logics (length datasets)"
  let ?P = "\<lambda>logic. ffilter (\<lambda>x. logic = signature datasets x) U"
  let ?ps = "map ?P ?logics"
  have P: "petal_set datasets U logic = Inr (?P logic)" if l: "logic \<in> set ?logics" for logic
  proof -
    obtain petal where p: "petal_set datasets U logic = Inr petal"
      using petal_set_generated [OF l, of U] by blast
    have "petal = ?P logic"
    proof (rule fset_eqI)
      fix x
      show "x |\<in>| petal \<longleftrightarrow> x |\<in>| ?P logic"
        using petal_member_signature [OF l p, of x] by simp blast
    qed
    then show ?thesis using p by simp
  qed
  have 1: "map (petal_set datasets U) ?logics = map Inr ?ps"
    using P by simp
  have 2: "\<forall>i < length ?ps. \<forall>j < length ?ps. i \<noteq> j \<longrightarrow> ?ps ! i |\<inter>| ?ps ! j = {||}"
  proof (intro allI impI)
    fix i j
    assume ij: "i < length ?ps" "j < length ?ps" "i \<noteq> j"
    then have "?logics ! i \<noteq> ?logics ! j"
      using distinct_generate_logics [of "length datasets"] by (simp add: nth_eq_iff_index_eq)
    then have "\<not> (x |\<in>| ?P (?logics ! i) \<and> x |\<in>| ?P (?logics ! j))" for x
      by auto
    then have "?P (?logics ! i) |\<inter>| ?P (?logics ! j) = {||}"
      by (intro fset_eqI) simp
    then show "?ps ! i |\<inter>| ?ps ! j = {||}"
      using ij by simp
  qed
  have 3: "ffUnion (fset_of_list ?ps) = U"
  proof (intro fset_eqI iffI)
    fix x
    assume "x |\<in>| ffUnion (fset_of_list ?ps)"
    then show "x |\<in>| U"
      by (auto simp: ffUnion.rep_eq fset_of_list.rep_eq)
  next
    fix x
    assume x: "x |\<in>| U"
    have "signature datasets x \<in> set ?logics"
      using signature_generated [OF U x] .
    moreover have "x |\<in>| ?P (signature datasets x)" using x by simp
    ultimately show "x |\<in>| ffUnion (fset_of_list ?ps)"
      by (auto simp: ffUnion.rep_eq fset_of_list.rep_eq)
  qed
  have 4: "sum_list (map fcard ?ps) = fcard U"
    using sum_fcard_disjoint [OF 2] 3 by simp
  show ?thesis using 1 2 3 4 by blast
qed

section \<open>The loop of \<^verbatim>\<open>generate_petals\<close>\<close>

lemma bit_length_mono: "a \<le> b \<Longrightarrow> bit_length a \<le> bit_length b"
proof (induction a arbitrary: b rule: bit_length.induct)
  case (1 n)
  show ?case
  proof (cases "n = 0")
    case True
    then show ?thesis by (simp add: bit_length.simps [of 0])
  next
    case False
    then have b: "b \<noteq> 0" using "1.prems" by simp
    have "n div 2 \<le> b div 2" using "1.prems" by (rule div_le_mono)
    then have "bit_length (n div 2) \<le> bit_length (b div 2)"
      using "1.IH" False by simp
    then show ?thesis using False b
      by (simp add: bit_length.simps [of n] bit_length.simps [of b])
  qed
qed

lemma bit_length_double: "0 < n \<Longrightarrow> bit_length (2 * n) = Suc (bit_length n)"
  by (simp add: bit_length.simps [of "2 * n"])

lemma bit_length_pow2_mult: "0 < n \<Longrightarrow> bit_length (2 ^ k * n) = bit_length n + k"
proof (induction k)
  case 0
  then show ?case by simp
next
  case (Suc k)
  have "bit_length (2 * (2 ^ k * n)) = Suc (bit_length (2 ^ k * n))"
    using Suc.prems by (intro bit_length_double) simp
  then show ?case using Suc by (simp add: mult.assoc)
qed

lemma bit_length_128: "0 < n \<Longrightarrow> bit_length (128 * n) = bit_length n + 7"
  using bit_length_pow2_mult [of n 7] by simp

lemma round_half_even_le: "of_int (round_half_even x) \<le> x + 1"
proof -
  have a: "of_int \<lfloor>x\<rfloor> \<le> x" by (rule of_int_floor_le)
  have b: "of_int \<lfloor>x\<rfloor> \<le> x + 1" using a by linarith
  have c: "of_int (\<lfloor>x\<rfloor> + 1) \<le> x + 1" using a by simp
  show ?thesis unfolding round_half_even_def Let_def using b c by presburger
qed

lemma round_half_even_nonneg: "0 \<le> x \<Longrightarrow> 0 \<le> round_half_even x"
  by (simp add: round_half_even_def Let_def)

lemma pow2_pos: "0 < pow2 e"
  by (simp add: pow2_def)

lemma pow2_le_one: "e \<le> 0 \<Longrightarrow> pow2 e \<le> 1"
  by (auto simp: pow2_def divide_le_eq_1)

lemma true_div_percentage:
  assumes u: "0 < u" and k: "k \<le> u"
  shows "\<exists>x. true_div (100 * k) u = Inr x"
proof (cases "k = 0")
  case True
  then show ?thesis using u by (simp add: true_div_def)
next
  case False
  let ?a = "100 * k"
  let ?e = "max (floor_log2 ?a u - 52) (- 1074)"
  let ?q = "of_nat ?a / of_nat u :: rat"
  let ?x = "of_int (round_half_even (?q / pow2 ?e)) * pow2 ?e"
  have "bit_length ?a \<le> bit_length (128 * u)"
    using k by (intro bit_length_mono) simp
  then have "int (bit_length ?a) - int (bit_length u) \<le> 7"
    using u by (simp add: bit_length_128)
  then have "floor_log2 ?a u \<le> 7"
    by (simp add: floor_log2_def Let_def)
  then have e: "?e \<le> 0" by simp
  have q: "?q \<le> 100" using u k by (simp add: divide_le_eq)
  have "?x \<le> (?q / pow2 ?e + 1) * pow2 ?e"
    using round_half_even_le [of "?q / pow2 ?e"] pow2_pos [of ?e]
    by (simp add: mult_right_mono)
  also have "\<dots> = ?q + pow2 ?e"
    using pow2_pos [of ?e] by (simp add: field_simps)
  also have "\<dots> \<le> 101"
    using q pow2_le_one [OF e] by simp
  finally have "?x \<le> 101" .
  moreover have "(101::rat) < pow2 1024"
    by (simp add: pow2_def)
  ultimately have "\<not> pow2 1024 \<le> ?x" by simp
  then show ?thesis using u False by (simp add: true_div_def Let_def)
qed

lemma petals_loop_returns:
  assumes "\<forall>logic \<in> set logics. \<exists>petal percentage description.
             petal_set datasets U logic = Inr petal
             \<and> true_div (100 * fcard petal) usize = Inr percentage
             \<and> fmt logic (fcard petal) percentage = Inr description"
  shows "\<exists>petals'. petals_loop datasets U usize fmt logics petals = Inr petals'"
  using assms
proof (induction logics arbitrary: petals)
  case Nil
  then show ?case by simp
next
  case (Cons logic logics)
  obtain petal percentage description where
    "petal_set datasets U logic = Inr petal"
    "true_div (100 * fcard petal) usize = Inr percentage"
    "fmt logic (fcard petal) percentage = Inr description"
    using Cons.prems by auto
  moreover have "\<exists>petals'. petals_loop datasets U usize fmt logics
                    (AList.update logic description petals) = Inr petals'"
    using Cons.IH Cons.prems by simp
  ultimately show ?case by simp
qed

lemma petals_loop_keys:
  assumes "petals_loop datasets U usize fmt logics petals = Inr petals'"
    and "distinct logics" and "set logics \<inter> set (map fst petals) = {}"
  shows "map fst petals' = map fst petals @ logics"
  using assms
proof (induction logics arbitrary: petals)
  case Nil
  then show ?case by simp
next
  case (Cons logic logics)
  from Cons.prems(1) obtain description where
    rest: "petals_loop datasets U usize fmt logics (AList.update logic description petals)
             = Inr petals'"
    by (auto split: sum.splits)
  have keys: "map fst (AList.update logic description petals) = map fst petals @ [logic]"
    using Cons.prems(3) by (simp add: update_keys)
  have "set logics \<inter> set (map fst (AList.update logic description petals)) = {}"
    using Cons.prems(2,3) by (simp only: keys) auto
  then have "map fst petals' = map fst (AList.update logic description petals) @ logics"
    using Cons.IH [OF rest] Cons.prems(2) by simp
  then show ?case by (simp add: keys)
qed

lemma petals_loop_other:
  assumes "petals_loop datasets U usize fmt logics petals = Inr petals'"
    and "k \<notin> set logics"
  shows "map_of petals' k = map_of petals k"
  using assms
proof (induction logics arbitrary: petals)
  case Nil
  then show ?case by simp
next
  case (Cons logic logics)
  from Cons.prems(1) obtain description where
    rest: "petals_loop datasets U usize fmt logics (AList.update logic description petals)
             = Inr petals'"
    by (auto split: sum.splits)
  have "map_of petals' k = map_of (AList.update logic description petals) k"
    using Cons.IH [OF rest] Cons.prems(2) by simp
  then show ?case using Cons.prems(2) by (simp add: update_conv')
qed

lemma petals_loop_entry:
  assumes "petals_loop datasets U usize fmt logics petals = Inr petals'"
    and "distinct logics" and "logic \<in> set logics"
  shows "\<exists>petal percentage description.
           petal_set datasets U logic = Inr petal
           \<and> true_div (100 * fcard petal) usize = Inr percentage
           \<and> fmt logic (fcard petal) percentage = Inr description
           \<and> map_of petals' logic = Some description"
  using assms
proof (induction logics arbitrary: petals)
  case Nil
  then show ?case by simp
next
  case (Cons l logics)
  from Cons.prems(1) obtain petal percentage description where
    step: "petal_set datasets U l = Inr petal"
      "true_div (100 * fcard petal) usize = Inr percentage"
      "fmt l (fcard petal) percentage = Inr description"
    and rest: "petals_loop datasets U usize fmt logics (AList.update l description petals)
             = Inr petals'"
    by (auto split: sum.splits)
  show ?case
  proof (cases "logic = l")
    case True
    have "l \<notin> set logics" using Cons.prems(2) by simp
    then have "map_of petals' l = map_of (AList.update l description petals) l"
      using petals_loop_other [OF rest] by simp
    then have "map_of petals' l = Some description" by (simp add: update_conv')
    then show ?thesis using step True by simp
  next
    case False
    then show ?thesis using Cons.IH [OF rest] Cons.prems(2,3) by simp
  qed
qed

lemma petal_subset_universe:
  assumes "logic \<in> set (generate_logics (length datasets))"
    and "petal_set datasets U logic = Inr petal"
  shows "fcard petal \<le> fcard U"
proof -
  have "petal |\<subseteq>| U"
    using petal_member_signature [OF assms] by auto
  then show ?thesis by (rule fcard_mono)
qed

lemma generate_petals_returns:
  assumes U: "set_union datasets = Inr U" and ne: "U \<noteq> {||}"
    and fmt: "\<forall>logic petal_size percentage. \<exists>description.
                fmt logic petal_size percentage = Inr description"
  shows "\<exists>petals. generate_petals datasets fmt = Inr petals"
proof -
  have pos: "0 < fcard U" using ne by (simp add: fcard_0_eq zero_less_iff_neq_zero)
  have "\<forall>logic \<in> set (generate_logics (length datasets)). \<exists>petal percentage description.
             petal_set datasets U logic = Inr petal
             \<and> true_div (100 * fcard petal) (fcard U) = Inr percentage
             \<and> fmt logic (fcard petal) percentage = Inr description"
  proof
    fix logic
    assume l: "logic \<in> set (generate_logics (length datasets))"
    obtain petal where p: "petal_set datasets U logic = Inr petal"
      using petal_set_generated [OF l, of U] by blast
    obtain percentage where d: "true_div (100 * fcard petal) (fcard U) = Inr percentage"
      using true_div_percentage [OF pos petal_subset_universe [OF l p]] by blast
    obtain description where "fmt logic (fcard petal) percentage = Inr description"
      using fmt by blast
    then show "\<exists>petal percentage description.
             petal_set datasets U logic = Inr petal
             \<and> true_div (100 * fcard petal) (fcard U) = Inr percentage
             \<and> fmt logic (fcard petal) percentage = Inr description"
      using p d by blast
  qed
  then show ?thesis
    using U petals_loop_returns [of "generate_logics (length datasets)" datasets U "fcard U" fmt "[]"]
    by (simp add: generate_petals_def Let_def)
qed

lemma generate_petals_keys:
  assumes "generate_petals datasets fmt = Inr petals"
  shows "map fst petals = generate_logics (length datasets)"
proof -
  obtain U where U: "set_union datasets = Inr U"
    using assms by (auto simp: generate_petals_def Let_def split: sum.splits)
  then have "petals_loop datasets U (fcard U) fmt (generate_logics (length datasets)) [] = Inr petals"
    using assms by (simp add: generate_petals_def Let_def)
  then show ?thesis
    using petals_loop_keys distinct_generate_logics by fastforce
qed

lemma default_fmt_total: "\<exists>description. default_fmt logic petal_size percentage = Inr description"
  by (simp add: default_fmt_def)

lemma generate_petals_entry:
  assumes g: "generate_petals datasets fmt = Inr petals"
    and U: "set_union datasets = Inr U"
    and logic: "logic \<in> set (generate_logics (length datasets))"
    and p: "petal_set datasets U logic = Inr petal"
  shows "\<exists>percentage description.
           true_div (100 * fcard petal) (fcard U) = Inr percentage
           \<and> fmt logic (fcard petal) percentage = Inr description
           \<and> map_of petals logic = Some description"
proof -
  have "petals_loop datasets U (fcard U) fmt (generate_logics (length datasets)) [] = Inr petals"
    using g U by (simp add: generate_petals_def Let_def)
  then show ?thesis
    using petals_loop_entry [of datasets U "fcard U" fmt "generate_logics (length datasets)" "[]"
        petals logic] distinct_generate_logics [of "length datasets"] logic p
    by simp
qed

lemma alist_nth_entry:
  assumes "distinct (map fst xs)" and "k < length xs" and "map_of xs (fst (xs ! k)) = Some v"
  shows "xs ! k = (fst (xs ! k), v)"
proof -
  have "(fst (xs ! k), snd (xs ! k)) \<in> set xs" using assms(2) by simp
  then have "map_of xs (fst (xs ! k)) = Some (snd (xs ! k))"
    using assms(1) by (simp only: map_of_eq_Some_iff)
  then show ?thesis using assms(3) by (simp add: prod_eq_iff)
qed

text \<open>
  Claim C1. For datasets whose union \<open>U\<close> is not empty (\<open>U\<close> is what line 58 computes, the
  union of all datasets), \<open>generate_petals\<close> returns a mapping with the default template,
  and for every mapping it returns there are petal sets \<open>ps\<close>, one per pattern of
  \<open>generate_logics\<close> and in its order, as many as the mapping has entries, such that the
  \<open>k\<close>-th set is the petal set the loop
  computes for the \<open>k\<close>-th pattern, the \<open>k\<close>-th entry of the mapping is the template applied
  to that pattern, to the size of that set and to its percentage of the size of \<open>U\<close>, the
  sets are pairwise disjoint, their union is \<open>U\<close>, and their sizes add up to the size of
  \<open>U\<close>.
\<close>

theorem generate_petals_partition:
  assumes U: "set_union datasets = Inr U" and ne: "U \<noteq> {||}"
  shows "fset U = (\<Union>d \<in> set datasets. fset d)
         \<and> (\<exists>petals. generate_petals datasets default_fmt = Inr petals)
         \<and> (\<forall>fmt petals. generate_petals datasets fmt = Inr petals \<longrightarrow>
               (\<exists>ps. map (petal_set datasets U) (generate_logics (length datasets)) = map Inr ps
                  \<and> length petals = length ps
                  \<and> (\<forall>k < length ps. \<exists>percentage description.
                         true_div (100 * fcard (ps ! k)) (fcard U) = Inr percentage
                         \<and> fmt (generate_logics (length datasets) ! k) (fcard (ps ! k)) percentage
                             = Inr description
                         \<and> petals ! k = (generate_logics (length datasets) ! k, description))
                  \<and> (\<forall>i < length ps. \<forall>j < length ps. i \<noteq> j \<longrightarrow> ps ! i |\<inter>| ps ! j = {||})
                  \<and> ffUnion (fset_of_list ps) = U
                  \<and> sum_list (map fcard ps) = fcard U))"
proof -
  let ?logics = "generate_logics (length datasets)"
  have a: "fset U = (\<Union>d \<in> set datasets. fset d)"
    using U by (rule set_union_fset)
  have b: "\<exists>petals. generate_petals datasets default_fmt = Inr petals"
    using generate_petals_returns [OF U ne, of default_fmt] default_fmt_total by simp
  obtain ps where m: "map (petal_set datasets U) ?logics = map Inr ps"
    and d: "\<forall>i < length ps. \<forall>j < length ps. i \<noteq> j \<longrightarrow> ps ! i |\<inter>| ps ! j = {||}"
    and u: "ffUnion (fset_of_list ps) = U"
    and s: "sum_list (map fcard ps) = fcard U"
    using petals_partition [OF U ne] by (elim exE conjE) (rule that)
  have len: "length ps = length ?logics"
    using m by (metis length_map)
  have e: "\<forall>k < length ps. \<exists>percentage description.
                         true_div (100 * fcard (ps ! k)) (fcard U) = Inr percentage
                         \<and> fmt (?logics ! k) (fcard (ps ! k)) percentage = Inr description
                         \<and> petals ! k = (?logics ! k, description)"
    if g: "generate_petals datasets fmt = Inr petals" for fmt petals
  proof (intro allI impI)
    fix k
    assume k: "k < length ps"
    have keys: "map fst petals = ?logics" using g by (rule generate_petals_keys)
    have kl: "k < length ?logics" using k len by simp
    have kp: "k < length petals" using kl keys by (metis length_map)
    have fk: "fst (petals ! k) = ?logics ! k"
      using keys kp by (metis nth_map)
    have l: "?logics ! k \<in> set ?logics" using kl by simp
    have "map (petal_set datasets U) ?logics ! k = map Inr ps ! k" using m by simp
    then have p: "petal_set datasets U (?logics ! k) = Inr (ps ! k)"
      using k kl by simp
    obtain percentage description where
      t: "true_div (100 * fcard (ps ! k)) (fcard U) = Inr percentage"
      and f: "fmt (?logics ! k) (fcard (ps ! k)) percentage = Inr description"
      and mo: "map_of petals (?logics ! k) = Some description"
      using generate_petals_entry [OF g U l p] by (elim exE conjE) (rule that)
    have "distinct (map fst petals)"
      using keys distinct_generate_logics [of "length datasets"] by simp
    then have "petals ! k = (?logics ! k, description)"
      using alist_nth_entry [of petals k description] kp mo fk by simp
    then show "\<exists>percentage description.
                 true_div (100 * fcard (ps ! k)) (fcard U) = Inr percentage
                 \<and> fmt (?logics ! k) (fcard (ps ! k)) percentage = Inr description
                 \<and> petals ! k = (?logics ! k, description)"
      using t f by (intro exI conjI)
  qed
  have c: "\<forall>fmt petals. generate_petals datasets fmt = Inr petals \<longrightarrow>
               (\<exists>ps. map (petal_set datasets U) ?logics = map Inr ps
                  \<and> length petals = length ps
                  \<and> (\<forall>k < length ps. \<exists>percentage description.
                         true_div (100 * fcard (ps ! k)) (fcard U) = Inr percentage
                         \<and> fmt (?logics ! k) (fcard (ps ! k)) percentage = Inr description
                         \<and> petals ! k = (?logics ! k, description))
                  \<and> (\<forall>i < length ps. \<forall>j < length ps. i \<noteq> j \<longrightarrow> ps ! i |\<inter>| ps ! j = {||})
                  \<and> ffUnion (fset_of_list ps) = U
                  \<and> sum_list (map fcard ps) = fcard U)"
  proof (intro allI impI)
    fix fmt petals
    assume g: "generate_petals datasets fmt = Inr petals"
    have "length (map fst petals) = length ?logics"
      using generate_petals_keys [OF g] by simp
    then have lp: "length petals = length ps" using len by simp
    show "\<exists>ps. map (petal_set datasets U) ?logics = map Inr ps
                  \<and> length petals = length ps
                  \<and> (\<forall>k < length ps. \<exists>percentage description.
                         true_div (100 * fcard (ps ! k)) (fcard U) = Inr percentage
                         \<and> fmt (?logics ! k) (fcard (ps ! k)) percentage = Inr description
                         \<and> petals ! k = (?logics ! k, description))
                  \<and> (\<forall>i < length ps. \<forall>j < length ps. i \<noteq> j \<longrightarrow> ps ! i |\<inter>| ps ! j = {||})
                  \<and> ffUnion (fset_of_list ps) = U
                  \<and> sum_list (map fcard ps) = fcard U"
      using m lp e [OF g] d u s by (intro exI [of _ ps] conjI)
  qed
  show ?thesis using a b c by (intro conjI)
qed

theorem generate_petals_partition_witness:
  "set_union [{|1, 2, 3|}, {|2, 3, 4::int|}] = Inr {|1, 2, 3, 4|}
   \<and> {|1, 2, 3, 4::int|} \<noteq> {||}
   \<and> generate_petals [{|1, 2, 3|}, {|2, 3, 4::int|}] default_fmt
       = Inr [(''01'', ''1 (25.0%)''), (''10'', ''1 (25.0%)''), (''11'', ''2 (50.0%)'')]
   \<and> map (petal_set [{|1, 2, 3|}, {|2, 3, 4::int|}] {|1, 2, 3, 4|})
         (generate_logics (length [{|1, 2, 3|}, {|2, 3, 4::int|}]))
       = map Inr [{|4|}, {|1|}, {|2, 3|}]
   \<and> ffUnion (fset_of_list [{|4|}, {|1|}, {|2, 3::int|}]) = {|1, 2, 3, 4|}
   \<and> sum_list (map fcard [{|4|}, {|1|}, {|2, 3::int|}]) = fcard {|1, 2, 3, 4::int|}"
proof -
  have ne: "{|1, 2, 3, 4::int|} \<noteq> {||}" by simp
  have m: "map (petal_set [{|1, 2, 3|}, {|2, 3, 4::int|}] {|1, 2, 3, 4|})
         (generate_logics (length [{|1, 2, 3|}, {|2, 3, 4::int|}]))
       = map Inr [{|4|}, {|1|}, {|2, 3|}]"
    by (simp add: e_logics2 [unfolded numeral_2_eq_2] e_p01 e_p10 e_p11)
  note all = generate_petals_partition [OF e_union ne, THEN conjunct2, THEN conjunct2]
  obtain ps where
    "map (petal_set [{|1, 2, 3|}, {|2, 3, 4::int|}] {|1, 2, 3, 4|})
         (generate_logics (length [{|1, 2, 3|}, {|2, 3, 4::int|}])) = map Inr ps"
    and u: "ffUnion (fset_of_list ps) = {|1, 2, 3, 4::int|}"
    and s: "sum_list (map fcard ps) = fcard {|1, 2, 3, 4::int|}"
    using all [THEN spec, THEN spec, THEN mp, OF e_petals] by (elim exE conjE) (rule that)
  then have "map Inr ps = (map Inr [{|4|}, {|1|}, {|2, 3|}] :: (error + int fset) list)"
    using m by simp
  then have ps: "ps = [{|4|}, {|1|}, {|2, 3|}]"
    by auto
  have "ffUnion (fset_of_list [{|4|}, {|1|}, {|2, 3::int|}]) = {|1, 2, 3, 4|}"
    using u by (simp only: ps)
  moreover have "sum_list (map fcard [{|4|}, {|1|}, {|2, 3::int|}]) = fcard {|1, 2, 3, 4::int|}"
    using s by (simp only: ps)
  ultimately show ?thesis using e_union ne e_petals m by (intro conjI)
qed

text \<open>
  Claim C3. For every pattern \<open>logic\<close> that \<open>generate_logics\<close> produces for the datasets,
  the petal set computed in the loop of \<open>generate_petals\<close> is the universe intersected with
  all datasets whose bit is \<^verbatim>\<open>1\<close>, minus the union of the datasets whose bit is \<^verbatim>\<open>0\<close>;
  when the pattern is all \<^verbatim>\<open>1\<close>, nothing is subtracted and the petal is the intersection of
  all datasets. It is this set that \<open>generate_petals\<close> reports: in every mapping it
  returns, the entry of \<open>logic\<close> is the template applied to \<open>logic\<close>, to the size of this
  set and to its percentage of the size of the universe.
\<close>

theorem generate_petals_petal_formula:
  assumes U: "set_union datasets = Inr U"
    and logic: "logic \<in> set (generate_logics (length datasets))"
  shows "\<exists>petal. petal_set datasets U logic = Inr petal
           \<and> fset petal =
               (fset U \<inter> (\<Inter>i \<in> {i. i < length datasets \<and> logic ! i = CHR ''1''}. fset (datasets ! i)))
               - (\<Union>i \<in> {i. i < length datasets \<and> logic ! i = CHR ''0''}. fset (datasets ! i))
           \<and> (logic = replicate (length datasets) CHR ''1'' \<longrightarrow>
                 fset petal = (\<Inter>d \<in> set datasets. fset d))
           \<and> (\<forall>fmt petals. generate_petals datasets fmt = Inr petals \<longrightarrow>
                 (\<exists>percentage description.
                    true_div (100 * fcard petal) (fcard U) = Inr percentage
                    \<and> fmt logic (fcard petal) percentage = Inr description
                    \<and> map_of petals logic = Some description))"
proof -
  obtain petal where p: "petal_set datasets U logic = Inr petal"
    and f: "fset petal =
               (fset U \<inter> (\<Inter>i \<in> {i. i < length datasets \<and> logic ! i = CHR ''1''}. fset (datasets ! i)))
               - (\<Union>i \<in> {i. i < length datasets \<and> logic ! i = CHR ''0''}. fset (datasets ! i))"
    and a: "logic = replicate (length datasets) CHR ''1'' \<longrightarrow>
                 fset petal = (\<Inter>d \<in> set datasets. fset d)"
    using petal_set_formula [OF U logic] by (elim exE conjE) (rule that)
  have e: "\<forall>fmt petals. generate_petals datasets fmt = Inr petals \<longrightarrow>
                 (\<exists>percentage description.
                    true_div (100 * fcard petal) (fcard U) = Inr percentage
                    \<and> fmt logic (fcard petal) percentage = Inr description
                    \<and> map_of petals logic = Some description)"
  proof (intro allI impI)
    fix fmt petals
    assume g: "generate_petals datasets fmt = Inr petals"
    show "\<exists>percentage description.
                    true_div (100 * fcard petal) (fcard U) = Inr percentage
                    \<and> fmt logic (fcard petal) percentage = Inr description
                    \<and> map_of petals logic = Some description"
      using generate_petals_entry [OF g U logic p] .
  qed
  show ?thesis using p f a e by (intro exI [of _ petal] conjI)
qed

theorem generate_petals_petal_formula_witness:
  "set_union [{|1, 2, 3, 9|}, {|2, 3, 4::int|}] = Inr {|1, 2, 3, 4, 9|}
   \<and> ''10'' \<in> set (generate_logics (length [{|1, 2, 3, 9|}, {|2, 3, 4::int|}]))
   \<and> petal_set [{|1, 2, 3, 9|}, {|2, 3, 4::int|}] {|1, 2, 3, 4, 9|} ''10'' = Inr {|1, 9|}
   \<and> generate_petals [{|1, 2, 3, 9|}, {|2, 3, 4::int|}] default_fmt
       = Inr [(''01'', ''1 (20.0%)''), (''10'', ''2 (40.0%)''), (''11'', ''2 (40.0%)'')]
   \<and> (\<exists>percentage description.
         true_div (100 * fcard {|1, 9::int|}) (fcard {|1, 2, 3, 4, 9::int|}) = Inr percentage
         \<and> default_fmt ''10'' (fcard {|1, 9::int|}) percentage = Inr description
         \<and> map_of [(''01'', ''1 (20.0%)''), (''10'', ''2 (40.0%)''), (''11'', ''2 (40.0%)'')] ''10''
             = Some description)"
proof -
  have l: "''10'' \<in> set (generate_logics (length [{|1, 2, 3, 9|}, {|2, 3, 4::int|}]))"
    by (simp add: e_logics2 [unfolded numeral_2_eq_2])
  obtain petal where p: "petal_set [{|1, 2, 3, 9|}, {|2, 3, 4::int|}] {|1, 2, 3, 4, 9|} ''10'' = Inr petal"
    and e: "\<forall>fmt petals. generate_petals [{|1, 2, 3, 9|}, {|2, 3, 4::int|}] fmt = Inr petals \<longrightarrow>
                 (\<exists>percentage description.
                    true_div (100 * fcard petal) (fcard {|1, 2, 3, 4, 9::int|}) = Inr percentage
                    \<and> fmt ''10'' (fcard petal) percentage = Inr description
                    \<and> map_of petals ''10'' = Some description)"
    using generate_petals_petal_formula [OF b_union l] by (elim exE conjE) (rule that)
  have pe: "petal = {|1, 9|}" using p b_p10 by simp
  have "\<exists>percentage description.
         true_div (100 * fcard petal) (fcard {|1, 2, 3, 4, 9::int|}) = Inr percentage
         \<and> default_fmt ''10'' (fcard petal) percentage = Inr description
         \<and> map_of [(''01'', ''1 (20.0%)''), (''10'', ''2 (40.0%)''), (''11'', ''2 (40.0%)'')] ''10''
             = Some description"
    using e b_petals by (elim allE impE)
  then have "\<exists>percentage description.
         true_div (100 * fcard {|1, 9::int|}) (fcard {|1, 2, 3, 4, 9::int|}) = Inr percentage
         \<and> default_fmt ''10'' (fcard {|1, 9::int|}) percentage = Inr description
         \<and> map_of [(''01'', ''1 (20.0%)''), (''10'', ''2 (40.0%)''), (''11'', ''2 (40.0%)'')] ''10''
             = Some description"
    by (simp only: pe)
  then show ?thesis using b_union l b_p10 b_petals by (intro conjI)
qed

text \<open>
  Claim C4. For datasets whose union is not empty, \<open>generate_petals\<close> returns a mapping
  (with the default template), and the keys of any mapping it returns, whatever the
  template, are exactly the patterns of \<open>generate_logics\<close> for the number of datasets, in
  the order of the enumeration: every pattern is a key and there is no other key.
\<close>

theorem generate_petals_key_set:
  assumes U: "set_union datasets = Inr U" and ne: "U \<noteq> {||}"
  shows "(\<exists>petals. generate_petals datasets default_fmt = Inr petals)
         \<and> (\<forall>fmt petals. generate_petals datasets fmt = Inr petals \<longrightarrow>
               map fst petals = generate_logics (length datasets)
               \<and> dom (map_of petals) = set (generate_logics (length datasets)))"
proof -
  have "\<exists>petals. generate_petals datasets default_fmt = Inr petals"
    using generate_petals_returns [OF U ne, of default_fmt] default_fmt_total by simp
  moreover have "map fst petals = generate_logics (length datasets)
               \<and> dom (map_of petals) = set (generate_logics (length datasets))"
    if g: "generate_petals datasets fmt = Inr petals" for fmt petals
  proof -
    have k: "map fst petals = generate_logics (length datasets)"
      using g by (rule generate_petals_keys)
    have "dom (map_of petals) = set (map fst petals)"
      by (simp add: dom_map_of_conv_image_fst)
    then show ?thesis using k by simp
  qed
  ultimately show ?thesis by blast
qed

theorem generate_petals_key_set_witness:
  "set_union [{|1, 2, 3|}, {|2, 3, 4::int|}] = Inr {|1, 2, 3, 4|}
   \<and> {|1, 2, 3, 4::int|} \<noteq> {||}
   \<and> generate_petals [{|1, 2, 3|}, {|2, 3, 4::int|}] default_fmt
       = Inr [(''01'', ''1 (25.0%)''), (''10'', ''1 (25.0%)''), (''11'', ''2 (50.0%)'')]
   \<and> dom (map_of [(''01'', ''1 (25.0%)''), (''10'', ''1 (25.0%)''), (''11'', ''2 (50.0%)'')])
       = set (generate_logics (length [{|1, 2, 3|}, {|2, 3, 4::int|}]))"
proof -
  have ne: "{|1, 2, 3, 4::int|} \<noteq> {||}" by simp
  have g: "generate_petals [{|1, 2, 3|}, {|2, 3, 4::int|}] default_fmt
       = Inr [(''01'', ''1 (25.0%)''), (''10'', ''1 (25.0%)''), (''11'', ''2 (50.0%)'')]"
    by (rule e_petals)
  have "\<forall>fmt petals. generate_petals [{|1, 2, 3|}, {|2, 3, 4::int|}] fmt = Inr petals \<longrightarrow>
               map fst petals = generate_logics (length [{|1, 2, 3|}, {|2, 3, 4::int|}])
               \<and> dom (map_of petals) = set (generate_logics (length [{|1, 2, 3|}, {|2, 3, 4::int|}]))"
    using generate_petals_key_set [OF e_union ne] by (rule conjunct2)
  then have "dom (map_of [(''01'', ''1 (25.0%)''), (''10'', ''1 (25.0%)''), (''11'', ''2 (50.0%)'')])
       = set (generate_logics (length [{|1, 2, 3|}, {|2, 3, 4::int|}]))"
    using g by (elim allE impE conjE)
  then show ?thesis using g e_union ne by (intro conjI)
qed

lemma set_union_all_empty:
  assumes "\<forall>d \<in> set datasets. d = {||}" and "datasets \<noteq> []"
  shows "set_union datasets = Inr {||}"
proof -
  obtain U where U: "set_union datasets = Inr U"
    using set_union_Inr [OF assms(2)] by blast
  have "fset U = {}" using set_union_fset [OF U] assms(1) by auto
  then have "U = {||}" by (simp add: fset_cong [symmetric] bot_fset.rep_eq)
  then show ?thesis using U by simp
qed

lemma generate_logics_nonempty: "0 < n \<Longrightarrow> generate_logics n \<noteq> []"
proof -
  assume "0 < n"
  then have "(2::nat) ^ 1 \<le> 2 ^ n" by (intro power_increasing) simp_all
  then have "0 < length (generate_logics n)" by (simp add: length_generate_logics)
  then show ?thesis by auto
qed

text \<open>
  Claim C5, as stated, asks for an explicit error of the function's own for an empty
  universe. Lines 54-76 have no check and no \<^verbatim>\<open>raise\<close>: on two empty datasets the union and
  the first petal set are computed, and the exception is the \<^verbatim>\<open>ZeroDivisionError\<close> of the
  division at line 74.
\<close>

theorem generate_petals_no_explicit_check:
  "set_union [{||}, {||} :: int fset] = Inr {||}
   \<and> petal_set [{||}, {||} :: int fset] {||} ''01'' = Inr {||}
   \<and> true_div (100 * fcard ({||} :: int fset)) (fcard ({||} :: int fset)) = Inl ZeroDivisionError
   \<and> generate_petals [{||}, {||} :: int fset] default_fmt = Inl ZeroDivisionError"
proof -
  have u: "set_union [{||}, {||} :: int fset] = Inr {||}" by simp
  have p: "petal_set [{||}, {||} :: int fset] {||} ''01'' = Inr {||}"
    by (simp add: petal_set_def upt_2)
  have d: "true_div (100 * fcard ({||} :: int fset)) (fcard ({||} :: int fset))
             = Inl ZeroDivisionError"
    by (simp add: true_div_def fcard_fempty)
  have "generate_petals [{||}, {||} :: int fset] default_fmt = Inl ZeroDivisionError"
    unfolding generate_petals_def Let_def u
    by (simp add: e_logics2 [unfolded numeral_2_eq_2] p true_div_def fcard_fempty
        del: set_union.simps)
  then show ?thesis using u p d by (intro conjI)
qed

text \<open>
  Claim C5, amended. When every supplied dataset is empty, so that the universe is empty,
  \<open>generate_petals\<close> returns no mapping, whatever the template: with at least one dataset
  the division by the universe size raises Python's built-in \<^verbatim>\<open>ZeroDivisionError\<close> at the
  first pattern, and with no dataset \<^verbatim>\<open>set.union()\<close> raises \<^verbatim>\<open>TypeError\<close>.
\<close>

theorem generate_petals_empty_universe:
  assumes "\<forall>d \<in> set datasets. d = {||}"
  shows "generate_petals datasets fmt
           = Inl (if datasets = [] then TypeError else ZeroDivisionError)"
proof (cases "datasets = []")
  case True
  then show ?thesis by (simp add: generate_petals_def)
next
  case False
  have U: "set_union datasets = Inr {||}"
    using set_union_all_empty [OF assms False] .
  obtain logic logics where ls: "generate_logics (length datasets) = logic # logics"
    using generate_logics_nonempty [of "length datasets"] False
    by (cases "generate_logics (length datasets)") auto
  then have "logic \<in> set (generate_logics (length datasets))" by simp
  then obtain petal where p: "petal_set datasets {||} logic = Inr petal"
    using petal_set_generated [of logic datasets "{||}"] by blast
  have "petals_loop datasets {||} 0 fmt (logic # logics) [] = Inl ZeroDivisionError"
    using p by (simp add: true_div_def)
  then show ?thesis using False U ls by (simp add: generate_petals_def Let_def fcard_fempty)
qed

theorem generate_petals_empty_universe_witness:
  "generate_petals [{||}, {||}, {||} :: int fset] default_fmt = Inl ZeroDivisionError
   \<and> generate_petals ([] :: int fset list) default_fmt = Inl TypeError"
  using generate_petals_empty_universe [of "[{||}, {||}, {||} :: int fset]" default_fmt]
    generate_petals_empty_universe [of "[] :: int fset list" default_fmt]
  by simp

section \<open>Determinism and the object store\<close>

lemma deref_append: "\<forall>r \<in> set refs. r < length h \<Longrightarrow> map ((!) (h @ ext)) refs = map ((!) h) refs"
  by (simp add: nth_append)

lemma fold_deref:
  "fold (\<lambda>t acc. f acc (h ! t)) refs s = fold (\<lambda>t acc. f acc t) (map ((!) h) refs) s"
  by (simp add: fold_map comp_def)

lemma set_union_st_sound:
  assumes "set_union_st refs h = (res, h')"
  shows "(\<exists>ext. h' = h @ ext)
         \<and> (case res of
               Inl e \<Rightarrow> set_union (map ((!) h) refs) = Inl e
             | Inr r \<Rightarrow> r < length h' \<and> set_union (map ((!) h) refs) = Inr (h' ! r))"
proof (cases refs)
  case Nil
  then show ?thesis using assms by (auto simp: set_union_st_def)
next
  case (Cons s others)
  then show ?thesis
    using assms fold_deref [of "(|\<union>|)" h others "h ! s"]
    by (auto simp: set_union_st_def new_set_def)
qed

lemma set_intersection_st_sound:
  assumes "set_intersection_st refs h = (res, h')"
  shows "(\<exists>ext. h' = h @ ext)
         \<and> (case res of
               Inl e \<Rightarrow> set_intersection (map ((!) h) refs) = Inl e
             | Inr r \<Rightarrow> r < length h' \<and> set_intersection (map ((!) h) refs) = Inr (h' ! r))"
proof (cases refs)
  case Nil
  then show ?thesis using assms by (auto simp: set_intersection_st_def)
next
  case (Cons s others)
  then show ?thesis
    using assms fold_deref [of "(|\<inter>|)" h others "h ! s"]
    by (auto simp: set_intersection_st_def new_set_def)
qed

lemma deref_select:
  "map (\<lambda>i. map ((!) h) datasets ! i) (filter P [0..<length datasets])
     = map ((!) h) (map (\<lambda>i. datasets ! i) (filter P [0..<length datasets]))"
  by simp

lemma select_valid:
  "\<forall>r \<in> set datasets. r < length h \<Longrightarrow>
     \<forall>r \<in> set (map (\<lambda>i. datasets ! i) (filter P [0..<length datasets])). r < length h"
  by auto

lemma fold_deref_append:
  assumes "\<forall>r \<in> set refs. r < length h"
  shows "fold (\<lambda>t acc. f acc ((h @ ext) ! t)) refs s = fold (\<lambda>t acc. f acc (h ! t)) refs s"
  using assms by (induction refs arbitrary: s) (simp_all add: nth_append)

lemma petal_set_st_sound:
  assumes run: "petal_set_st datasets dataset_union logic h = (res, h')"
    and valid: "\<forall>r \<in> set datasets. r < length h"
    and du: "dataset_union < length h"
  shows "(\<exists>ext. h' = h @ ext)
         \<and> (case res of
               Inl e \<Rightarrow> petal_set (map ((!) h) datasets) (h ! dataset_union) logic = Inl e
             | Inr p \<Rightarrow> p < length h'
                 \<and> petal_set (map ((!) h) datasets) (h ! dataset_union) logic = Inr (h' ! p))"
proof (cases "length logic < length datasets")
  case True
  then show ?thesis using run by (auto simp: petal_set_st_def petal_set_def)
next
  case False
  let ?I = "map (\<lambda>i. datasets ! i) (filter (\<lambda>i. logic ! i = CHR ''1'') [0..<length datasets])"
  let ?E = "map (\<lambda>i. datasets ! i) (filter (\<lambda>i. logic ! i = CHR ''0'') [0..<length datasets])"
  have vI: "\<forall>r \<in> set ?I. r < length h" using valid by (rule select_valid)
  have vE: "\<forall>r \<in> set ?E. r < length h" using valid by (rule select_valid)
  have pure: "petal_set (map ((!) h) datasets) (h ! dataset_union) logic =
      (case set_intersection (map ((!) h) ?I) of
         Inl e \<Rightarrow> Inl e
       | Inr included \<Rightarrow>
           (case set_union ({||} # map ((!) h) ?E) of
              Inl e \<Rightarrow> Inl e
            | Inr excluded \<Rightarrow> Inr ((h ! dataset_union |\<inter>| included) |-| excluded)))"
    unfolding petal_set_def Let_def length_map deref_select using False by (simp only: if_False)
  show ?thesis
  proof (cases ?I)
    case Nil
    have "petal_set_st datasets dataset_union logic h = (Inl TypeError, h)"
      using False Nil by (simp add: petal_set_st_def Let_def set_intersection_st_def)
    moreover have "petal_set (map ((!) h) datasets) (h ! dataset_union) logic = Inl TypeError"
      using pure Nil by simp
    ultimately show ?thesis using run by auto
  next
    case (Cons s others)
    let ?inc = "fold (\<lambda>t acc. acc |\<inter>| h ! t) others (h ! s)"
    let ?h1 = "h @ [?inc]"
    let ?h2 = "?h1 @ [h ! dataset_union |\<inter>| ?inc]"
    let ?h3 = "?h2 @ [{||}]"
    let ?exc = "fold (\<lambda>t acc. acc |\<union>| h ! t) ?E {||}"
    let ?h4 = "?h3 @ [?exc]"
    let ?p = "(h ! dataset_union |\<inter>| ?inc) |-| ?exc"
    let ?h5 = "?h4 @ [?p]"
    have i: "set_intersection_st ?I h = (Inr (length h), ?h1)"
      by (simp add: Cons set_intersection_st_def new_set_def)
    have n2: "new_set (?h1 ! dataset_union |\<inter>| ?h1 ! length h) ?h1 = (Suc (length h), ?h2)"
      using du by (simp add: new_set_def nth_append)
    have n3: "new_set {||} ?h2 = (Suc (Suc (length h)), ?h3)"
      by (simp add: new_set_def)
    have fe: "fold (\<lambda>t acc. acc |\<union>| ?h3 ! t) ?E (?h3 ! Suc (Suc (length h))) = ?exc"
    proof -
      have "\<forall>r \<in> set ?E. r < length h" using vE .
      then have "fold (\<lambda>t acc. acc |\<union>| (h @ [?inc, h ! dataset_union |\<inter>| ?inc, {||}]) ! t) ?E {||}
                   = ?exc"
        by (rule fold_deref_append)
      then show ?thesis by (simp add: nth_append)
    qed
    have u: "set_union_st (Suc (Suc (length h)) # ?E) ?h3 = (Inr (Suc (Suc (Suc (length h)))), ?h4)"
      unfolding set_union_st_def new_set_def list.case fe by simp
    have n5: "new_set (?h4 ! Suc (length h) |-| ?h4 ! Suc (Suc (Suc (length h)))) ?h4
                = (Suc (Suc (Suc (Suc (length h)))), ?h5)"
      by (simp add: new_set_def nth_append)
    have st: "petal_set_st datasets dataset_union logic h = (Inr (Suc (Suc (Suc (Suc (length h))))), ?h5)"
      using False unfolding petal_set_st_def Let_def i n2 n3 u n5
      by (simp only: if_False prod.case sum.case i n2 n3 u n5)
    have pi: "set_intersection (map ((!) h) ?I) = Inr ?inc"
      unfolding Cons by (simp add: fold_map comp_def)
    have pu: "set_union ({||} # map ((!) h) ?E) = Inr ?exc"
      by (simp add: fold_map comp_def)
    have pv: "petal_set (map ((!) h) datasets) (h ! dataset_union) logic = Inr ?p"
      unfolding pure pi pu by simp
    have "res = Inr (Suc (Suc (Suc (Suc (length h))))) \<and> h' = ?h5"
      using run st by simp
    then show ?thesis using pv by (auto simp: nth_append)
  qed
qed

lemma petals_loop_st_sound:
  assumes "\<forall>r \<in> set datasets. r < length h" and "dataset_union < length h"
  shows "fst (petals_loop_st datasets dataset_union universe_size fmt logics petals h)
           = petals_loop (map ((!) h) datasets) (h ! dataset_union) universe_size fmt logics petals
         \<and> (\<exists>ext. snd (petals_loop_st datasets dataset_union universe_size fmt logics petals h)
                    = h @ ext)"
  using assms
proof (induction logics arbitrary: petals h)
  case Nil
  then show ?case by simp
next
  case (Cons logic logics)
  obtain res h' where run: "petal_set_st datasets dataset_union logic h = (res, h')"
    by (cases "petal_set_st datasets dataset_union logic h") auto
  from petal_set_st_sound [OF run Cons.prems]
  obtain ext where ext: "h' = h @ ext"
    and r: "case res of
               Inl e \<Rightarrow> petal_set (map ((!) h) datasets) (h ! dataset_union) logic = Inl e
             | Inr p \<Rightarrow> p < length h'
                 \<and> petal_set (map ((!) h) datasets) (h ! dataset_union) logic = Inr (h' ! p)"
    by (elim exE conjE) (rule that)
  show ?case
  proof (cases res)
    case (Inl e)
    then show ?thesis using run r ext by simp
  next
    case (Inr p)
    then have pure: "petal_set (map ((!) h) datasets) (h ! dataset_union) logic = Inr (h' ! p)"
      using r by simp
    show ?thesis
    proof (cases "true_div (100 * fcard (h' ! p)) universe_size")
      case (Inl e)
      then show ?thesis using run Inr pure ext by simp
    next
      case pct: (Inr percentage)
      show ?thesis
      proof (cases "fmt logic (fcard (h' ! p)) percentage")
        case (Inl e)
        then show ?thesis using run Inr pure pct ext by simp
      next
        case d: (Inr description)
        have v': "\<forall>r \<in> set datasets. r < length h'" using Cons.prems(1) ext by auto
        have du': "dataset_union < length h'" using Cons.prems(2) ext by simp
        have same: "map ((!) h') datasets = map ((!) h) datasets"
          using Cons.prems(1) unfolding ext by (rule deref_append)
        have sdu: "h' ! dataset_union = h ! dataset_union"
          using Cons.prems(2) by (simp add: ext nth_append)
        from Cons.IH [OF v' du', of "AList.update logic description petals"]
        obtain ext' where
          f: "fst (petals_loop_st datasets dataset_union universe_size fmt logics
                 (AList.update logic description petals) h')
              = petals_loop (map ((!) h) datasets) (h ! dataset_union) universe_size fmt logics
                  (AList.update logic description petals)"
          and s: "snd (petals_loop_st datasets dataset_union universe_size fmt logics
                 (AList.update logic description petals) h') = h' @ ext'"
          unfolding same sdu by (elim exE conjE) (rule that)
        have "snd (petals_loop_st datasets dataset_union universe_size fmt logics
                 (AList.update logic description petals) h') = h @ (ext @ ext')"
          using s ext by simp
        then show ?thesis using run Inr pure pct d f by simp
      qed
    qed
  qed
qed

lemma generate_petals_st_sound:
  assumes valid: "\<forall>r \<in> set datasets. r < length h"
  shows "fst (generate_petals_st datasets fmt h) = generate_petals (map ((!) h) datasets) fmt
         \<and> (\<exists>ext. snd (generate_petals_st datasets fmt h) = h @ ext)"
proof -
  obtain res h1 where run: "set_union_st datasets h = (res, h1)"
    by (cases "set_union_st datasets h") auto
  from set_union_st_sound [OF run]
  obtain ext where ext: "h1 = h @ ext"
    and r: "case res of
               Inl e \<Rightarrow> set_union (map ((!) h) datasets) = Inl e
             | Inr r \<Rightarrow> r < length h1 \<and> set_union (map ((!) h) datasets) = Inr (h1 ! r)"
    by (elim exE conjE) (rule that)
  show ?thesis
  proof (cases res)
    case (Inl e)
    then show ?thesis using run r ext by (simp add: generate_petals_st_def generate_petals_def)
  next
    case (Inr du)
    then have du: "du < length h1" and pure: "set_union (map ((!) h) datasets) = Inr (h1 ! du)"
      using r by simp_all
    have v1: "\<forall>r \<in> set datasets. r < length h1" using valid ext by auto
    have same: "map ((!) h1) datasets = map ((!) h) datasets"
      using valid unfolding ext by (rule deref_append)
    from petals_loop_st_sound [OF v1 du, of "fcard (h1 ! du)" fmt
        "generate_logics (length datasets)" "[]"]
    obtain ext' where
      f: "fst (petals_loop_st datasets du (fcard (h1 ! du)) fmt (generate_logics (length datasets))
             [] h1)
          = petals_loop (map ((!) h) datasets) (h1 ! du) (fcard (h1 ! du)) fmt
              (generate_logics (length datasets)) []"
      and s: "snd (petals_loop_st datasets du (fcard (h1 ! du)) fmt
             (generate_logics (length datasets)) [] h1) = h1 @ ext'"
      unfolding same by (elim exE conjE) (rule that)
    have "snd (petals_loop_st datasets du (fcard (h1 ! du)) fmt
             (generate_logics (length datasets)) [] h1) = h @ (ext @ ext')"
      using s ext by simp
    then show ?thesis
      using run Inr pure f by (simp add: generate_petals_st_def generate_petals_def Let_def)
  qed
qed

text \<open>
  Claim C9. \<open>generate_petals\<close> is deterministic and has no side effect. In a store where the
  datasets are the objects at the given references, the call returns what the function
  \<open>generate_petals\<close> gives on the contents of the datasets and the template, so the result
  depends on nothing else; every object that existed before the call, the datasets among
  them, is unchanged after it; and a second call with the same references and template,
  in the store the first call left, returns the same as the first.
\<close>

theorem generate_petals_pure:
  assumes valid: "\<forall>r \<in> set datasets. r < length h"
  shows "fst (generate_petals_st datasets fmt h) = generate_petals (map ((!) h) datasets) fmt
         \<and> take (length h) (snd (generate_petals_st datasets fmt h)) = h
         \<and> map ((!) (snd (generate_petals_st datasets fmt h))) datasets = map ((!) h) datasets
         \<and> fst (generate_petals_st datasets fmt (snd (generate_petals_st datasets fmt h)))
             = fst (generate_petals_st datasets fmt h)"
proof -
  let ?h' = "snd (generate_petals_st datasets fmt h)"
  obtain ext where f: "fst (generate_petals_st datasets fmt h)
                         = generate_petals (map ((!) h) datasets) fmt"
    and s: "?h' = h @ ext"
    using generate_petals_st_sound [OF valid, of fmt] by (elim exE conjE) (rule that)
  have t: "take (length h) ?h' = h" by (simp add: s)
  have m: "map ((!) ?h') datasets = map ((!) h) datasets"
    using valid unfolding s by (rule deref_append)
  have v': "\<forall>r \<in> set datasets. r < length ?h'" using valid s by auto
  have "fst (generate_petals_st datasets fmt ?h') = generate_petals (map ((!) ?h') datasets) fmt"
    using generate_petals_st_sound [OF v', of fmt] by (elim exE conjE)
  then have a: "fst (generate_petals_st datasets fmt ?h') = fst (generate_petals_st datasets fmt h)"
    by (simp only: m f)
  show ?thesis using f t m a by (intro conjI)
qed

theorem generate_petals_pure_witness:
  "fst (generate_petals_st [0, 1] default_fmt [{|1, 2, 3|}, {|2, 3, 4::int|}])
     = Inr [(''01'', ''1 (25.0%)''), (''10'', ''1 (25.0%)''), (''11'', ''2 (50.0%)'')]
   \<and> take 2 (snd (generate_petals_st [0, 1] default_fmt [{|1, 2, 3|}, {|2, 3, 4::int|}]))
       = [{|1, 2, 3|}, {|2, 3, 4|}]
   \<and> fst (generate_petals_st [0, 1] default_fmt
            (snd (generate_petals_st [0, 1] default_fmt [{|1, 2, 3|}, {|2, 3, 4::int|}])))
       = Inr [(''01'', ''1 (25.0%)''), (''10'', ''1 (25.0%)''), (''11'', ''2 (50.0%)'')]"
proof -
  have v: "\<forall>r \<in> set [0, 1]. r < length [{|1, 2, 3|}, {|2, 3, 4::int|}]" by simp
  have d: "map ((!) [{|1, 2, 3|}, {|2, 3, 4::int|}]) [0, 1] = [{|1, 2, 3|}, {|2, 3, 4|}]"
    by simp
  note t = generate_petals_pure [OF v, of default_fmt]
  have a: "fst (generate_petals_st [0, 1] default_fmt [{|1, 2, 3|}, {|2, 3, 4::int|}])
     = Inr [(''01'', ''1 (25.0%)''), (''10'', ''1 (25.0%)''), (''11'', ''2 (50.0%)'')]"
    using t [THEN conjunct1] by (simp only: d e_petals)
  have b: "take 2 (snd (generate_petals_st [0, 1] default_fmt [{|1, 2, 3|}, {|2, 3, 4::int|}]))
       = [{|1, 2, 3|}, {|2, 3, 4|}]"
    using t [THEN conjunct2, THEN conjunct1] by (simp add: numeral_2_eq_2)
  have c: "fst (generate_petals_st [0, 1] default_fmt
            (snd (generate_petals_st [0, 1] default_fmt [{|1, 2, 3|}, {|2, 3, 4::int|}])))
       = Inr [(''01'', ''1 (25.0%)''), (''10'', ''1 (25.0%)''), (''11'', ''2 (50.0%)'')]"
    using t [THEN conjunct2, THEN conjunct2, THEN conjunct2] by (simp only: a)
  show ?thesis using a b c by (intro conjI)
qed

section \<open>The rendering boundary\<close>

lemma venn_inconsistent:
  "list_ex (\<lambda>logic. length logic \<noteq> length labels) (map fst petals) \<Longrightarrow>
     venn K palette edge petals labels figsize fontsize legend_loc ax
       = (Some (ValueError ''Inconsistent petal and dataset labels''), ax)"
  by (simp add: venn_def)

lemma venn_cardinality:
  "\<not> list_ex (\<lambda>logic. length logic \<noteq> length labels) (map fst petals) \<Longrightarrow>
   length labels < 2 \<or> 6 < length labels \<Longrightarrow>
     venn K palette edge petals labels figsize fontsize legend_loc ax
       = (Some (ValueError ''Number of sets must be between 2 and 6''), ax)"
  by (auto simp: venn_def)

text \<open>
  Claim C6. When the number of labels is outside the range from 2 to 6, for example 1 or 7,
  \<open>venn\<close> raises a \<^verbatim>\<open>ValueError\<close> of its validation and leaves the axes as they were
  passed in: nothing is drawn and no figure is created. The message is that of line 98,
  \<^verbatim>\<open>Number of sets must be between 2 and 6\<close>, unless a key of the petal mapping has a
  length other than the number of labels, which line 92 reports first.
\<close>

theorem venn_invalid_cardinality:
  "length labels < 2 \<or> 6 < length labels \<Longrightarrow>
     venn K palette edge petals labels figsize fontsize legend_loc ax
       = (Some (ValueError
            (if list_ex (\<lambda>logic. length logic \<noteq> length labels) (map fst petals)
             then ''Inconsistent petal and dataset labels''
             else ''Number of sets must be between 2 and 6'')), ax)"
  using venn_inconsistent [of labels petals K palette edge figsize fontsize legend_loc ax]
    venn_cardinality [of labels petals K palette edge figsize fontsize legend_loc ax]
  by (cases "list_ex (\<lambda>logic. length logic \<noteq> length labels) (map fst petals)") simp_all

theorem venn_invalid_cardinality_witness:
  "venn example_constants example_palette id [(''1'', ''1 (100.0%)'')] [''A''] (8, 8) 13
       (Some ''upper right'') None
     = (Some (ValueError ''Number of sets must be between 2 and 6''), None)
   \<and> venn example_constants example_palette id [(''1111111'', ''1 (100.0%)'')]
       [''A'', ''B'', ''C'', ''D'', ''E'', ''F'', ''G''] (8, 8) 13 (Some ''upper right'') None
     = (Some (ValueError ''Number of sets must be between 2 and 6''), None)"
  using venn_invalid_cardinality [of "[''A'']" example_constants example_palette id
      "[(''1'', ''1 (100.0%)'')]" "(8, 8)" 13 "Some ''upper right''" None]
    venn_invalid_cardinality [of "[''A'', ''B'', ''C'', ''D'', ''E'', ''F'', ''G'']"
      example_constants example_palette id
      "[(''1111111'', ''1 (100.0%)'')]" "(8, 8)" 13 "Some ''upper right''" None]
  by simp









text \<open>
  Claim C10. \<open>generate_petals\<close> does not check the number of datasets: for one dataset or
  more, whatever their number, with a non-empty union and a template that formats its
  arguments, it returns a mapping with \<open>2 ^ N - 1\<close> entries, one per pattern. The range from
  2 to 6 is checked in \<open>venn\<close>: given that mapping and as many labels as datasets, it
  raises the \<^verbatim>\<open>ValueError\<close> of line 98 when the number is below 2 or above 6.
\<close>

theorem generate_petals_no_cardinality_check:
  assumes U: "set_union datasets = Inr U" and ne: "U \<noteq> {||}"
    and fmt: "\<forall>logic petal_size percentage. \<exists>description.
                fmt logic petal_size percentage = Inr description"
  shows "1 \<le> length datasets
         \<and> (\<exists>petals. generate_petals datasets fmt = Inr petals
               \<and> length petals = 2 ^ length datasets - 1
               \<and> map fst petals = generate_logics (length datasets)
               \<and> (length labels = length datasets
                    \<and> (length datasets < 2 \<or> 6 < length datasets) \<longrightarrow>
                  venn K palette edge petals labels figsize fontsize legend_loc ax
                    = (Some (ValueError ''Number of sets must be between 2 and 6''), ax)))"
proof -
  have n: "1 \<le> length datasets" using U by (cases datasets) auto
  obtain petals where g: "generate_petals datasets fmt = Inr petals"
    using generate_petals_returns [OF U ne fmt] by blast
  have keys: "map fst petals = generate_logics (length datasets)"
    using g by (rule generate_petals_keys)
  have "length (map fst petals) = 2 ^ length datasets - 1"
    by (simp only: keys length_generate_logics)
  then have len: "length petals = 2 ^ length datasets - 1" by simp
  have v: "venn K palette edge petals labels figsize fontsize legend_loc ax
                    = (Some (ValueError ''Number of sets must be between 2 and 6''), ax)"
    if l: "length labels = length datasets"
      and c: "length datasets < 2 \<or> 6 < length datasets"
  proof -
    have "\<not> list_ex (\<lambda>logic. length logic \<noteq> length labels) (map fst petals)"
      using generate_logics_length [of _ "length datasets"] l
      by (simp add: keys list_ex_iff)
    then show ?thesis
      using venn_cardinality [of labels petals K palette edge figsize fontsize legend_loc ax] c l
      by simp
  qed
  show ?thesis using n g len keys v by blast
qed

lemma s_union:
  "set_union [{|1|}, {|2|}, {|3|}, {|4|}, {|5|}, {|6|}, {|7::int|}] = Inr {|1, 2, 3, 4, 5, 6, 7|}"
  by auto

theorem generate_petals_no_cardinality_check_witness:
  "(\<exists>petals. generate_petals [{|1::int|}] default_fmt = Inr petals
       \<and> length petals = 1
       \<and> venn example_constants example_palette id petals [''A''] (8, 8) 13
            (Some ''upper right'') None
          = (Some (ValueError ''Number of sets must be between 2 and 6''), None))
   \<and> (\<exists>petals. generate_petals [{|1|}, {|2|}, {|3|}, {|4|}, {|5|}, {|6|}, {|7::int|}] default_fmt
                  = Inr petals
       \<and> length petals = 127
       \<and> venn example_constants example_palette id petals
            [''A'', ''B'', ''C'', ''D'', ''E'', ''F'', ''G''] (8, 8) 13 (Some ''upper right'') None
          = (Some (ValueError ''Number of sets must be between 2 and 6''), None))"
proof -
  have u1: "set_union [{|1::int|}] = Inr {|1|}" by simp
  have ne1: "{|1::int|} \<noteq> {||}" by simp
  have ne7: "{|1, 2, 3, 4, 5, 6, 7::int|} \<noteq> {||}" by simp
  have f: "\<forall>logic petal_size percentage. \<exists>description.
             default_fmt logic petal_size percentage = Inr description"
    using default_fmt_total by simp
  have a: "\<exists>petals. generate_petals [{|1::int|}] default_fmt = Inr petals
       \<and> length petals = 1
       \<and> venn example_constants example_palette id petals [''A''] (8, 8) 13
            (Some ''upper right'') None
          = (Some (ValueError ''Number of sets must be between 2 and 6''), None)"
  proof -
    obtain petals where "generate_petals [{|1::int|}] default_fmt = Inr petals"
      "length petals = 1"
      "venn example_constants example_palette id petals [''A''] (8, 8) 13
            (Some ''upper right'') None
          = (Some (ValueError ''Number of sets must be between 2 and 6''), None)"
      using generate_petals_no_cardinality_check [OF u1 ne1 f, where labels = "[''A'']"
        and K = example_constants and palette = example_palette and edge = id
        and figsize = "(8, 8)" and fontsize = 13 and legend_loc = "Some ''upper right''"
        and ax = None]
      by auto
    then show ?thesis by (intro exI [of _ petals] conjI)
  qed
  have b: "\<exists>petals. generate_petals [{|1|}, {|2|}, {|3|}, {|4|}, {|5|}, {|6|}, {|7::int|}] default_fmt
                  = Inr petals
       \<and> length petals = 127
       \<and> venn example_constants example_palette id petals
            [''A'', ''B'', ''C'', ''D'', ''E'', ''F'', ''G''] (8, 8) 13 (Some ''upper right'') None
          = (Some (ValueError ''Number of sets must be between 2 and 6''), None)"
  proof -
    obtain petals where
      "generate_petals [{|1|}, {|2|}, {|3|}, {|4|}, {|5|}, {|6|}, {|7::int|}] default_fmt
         = Inr petals"
      "length petals = 127"
      "venn example_constants example_palette id petals
            [''A'', ''B'', ''C'', ''D'', ''E'', ''F'', ''G''] (8, 8) 13 (Some ''upper right'') None
          = (Some (ValueError ''Number of sets must be between 2 and 6''), None)"
      using generate_petals_no_cardinality_check [OF s_union ne7 f,
        where labels = "[''A'', ''B'', ''C'', ''D'', ''E'', ''F'', ''G'']"
        and K = example_constants and palette = example_palette and edge = id
        and figsize = "(8, 8)" and fontsize = 13 and legend_loc = "Some ''upper right''"
        and ax = None]
      by auto
    then show ?thesis by (intro exI [of _ petals] conjI)
  qed
  show ?thesis using a b by (intro conjI)
qed

section \<open>The documented example\<close>

text \<open>
  Claim C7. For the datasets \<open>{1, 2, 3}\<close> and \<open>{2, 3, 4}\<close> and the default template, the
  universe is \<open>{1, 2, 3, 4}\<close> of size 4 and \<open>generate_petals\<close> returns the mapping
  \<^verbatim>\<open>01\<close> to \<^verbatim>\<open>1 (25.0%)\<close>, \<^verbatim>\<open>10\<close> to \<^verbatim>\<open>1 (25.0%)\<close>, \<^verbatim>\<open>11\<close> to \<^verbatim>\<open>2 (50.0%)\<close>.
\<close>

theorem generate_petals_example:
  "set_union [{|1, 2, 3|}, {|2, 3, 4::int|}] = Inr {|1, 2, 3, 4|}
   \<and> fcard {|1, 2, 3, 4::int|} = 4
   \<and> generate_petals [{|1, 2, 3|}, {|2, 3, 4::int|}] default_fmt
       = Inr [(''01'', ''1 (25.0%)''), (''10'', ''1 (25.0%)''), (''11'', ''2 (50.0%)'')]"
  using e_union e_card(1) e_petals by (intro conjI)

end
